theory Spec2Isabelle
  imports Main "HOL-Library.Sublist"
begin

unbundle bit_operations_syntax

section \<open>JavaScript values and objects\<close>

text \<open>
  The module handles plain data: feedback states and option records are objects decoded
  from JSON, whose fields hold strings, numbers, booleans, arrays and nested objects.
  An object is the list of its own enumerable properties in enumeration order, with pairwise
  distinct names. A string is the list of the bytes of its UTF-8 encoding.

  A number is an integer. The statements about the text of a number are made for the safe
  integers only (magnitude at most \<open>2 ^ 53 - 1\<close>, see \<open>safe_integer\<close> below): these are
  the numbers that are held exactly and that \<open>Number::toString\<close> prints as their plain
  decimal digits. Fractions, larger magnitudes (printed with an exponent from \<open>1e+21\<close>
  on), the negative zero, \<open>NaN\<close> and the infinities are outside the model.

  \<open>JFunction f\<close> is the built-in function named \<open>f\<close>. The data of the module holds no
  function; one is met only when a property read finds a member of \<open>Object.prototype\<close>.
\<close>

datatype jsval =
    JUndefined
  | JNull
  | JBool bool
  | JNum int
  | JStr string
  | JArr "jsval list"
  | JObj "(string \<times> jsval) list"
  | JFunction string

type_synonym jsobj = "(string \<times> jsval) list"

text \<open>\<open>o.hasOwnProperty(k)\<close>, \<open>o[k]\<close>, \<open>o[k] = v\<close> and \<open>delete o[k]\<close> on an object.
  A write to an existing property keeps its place; a new property goes to the end (every
  property name written by this module contains a letter, so none is an array index).\<close>

definition hasOwnProperty :: "('k \<times> 'v) list \<Rightarrow> 'k \<Rightarrow> bool" where
  "hasOwnProperty obj k = (map_of obj k \<noteq> None)"

definition prop_get :: "jsobj \<Rightarrow> string \<Rightarrow> jsval" where
  "prop_get obj k = (case map_of obj k of None \<Rightarrow> JUndefined | Some v \<Rightarrow> v)"

text \<open>\<^const>\<open>prop_get\<close> reads an own property. A read \<open>o[k]\<close> of a plain object (one
  made by \<open>{}\<close> or by \<open>JSON.parse\<close>) that finds no own property goes on to
  \<open>Object.prototype\<close>, whose members are eleven built-in functions and the accessor
  \<open>__proto__\<close>, which gives \<open>Object.prototype\<close> itself, an object with no enumerable
  property. \<open>obj_get\<close> is that read. The two agree on every name that is not one of
  the twelve; the module reads fixed names (\<open>state.imageName\<close>, \<open>state.png64\<close>,
  \<open>result.value\<close> and the like, none of the twelve) with \<^const>\<open>prop_get\<close> and names
  computed from data (\<open>this.images[name]\<close>, \<open>playStates[key]\<close>,
  \<open>this.pendingFeedbackChanges[id]\<close>) with \<open>obj_get\<close>.\<close>

definition Object_prototype :: jsobj where
  "Object_prototype =
     [(''constructor'', JFunction ''Object''),
      (''__defineGetter__'', JFunction ''__defineGetter__''),
      (''__defineSetter__'', JFunction ''__defineSetter__''),
      (''hasOwnProperty'', JFunction ''hasOwnProperty''),
      (''__lookupGetter__'', JFunction ''__lookupGetter__''),
      (''__lookupSetter__'', JFunction ''__lookupSetter__''),
      (''isPrototypeOf'', JFunction ''isPrototypeOf''),
      (''propertyIsEnumerable'', JFunction ''propertyIsEnumerable''),
      (''toString'', JFunction ''toString''),
      (''valueOf'', JFunction ''valueOf''),
      (''__proto__'', JObj []),
      (''toLocaleString'', JFunction ''toLocaleString'')]"

definition obj_get :: "jsobj \<Rightarrow> string \<Rightarrow> jsval" where
  "obj_get obj k =
     (case map_of obj k of
        Some v \<Rightarrow> v
      | None \<Rightarrow> (case map_of Object_prototype k of None \<Rightarrow> JUndefined | Some v \<Rightarrow> v))"

fun prop_set :: "('k \<times> 'v) list \<Rightarrow> 'k \<Rightarrow> 'v \<Rightarrow> ('k \<times> 'v) list" where
  "prop_set [] k v = [(k, v)]"
| "prop_set ((k', v') # ps) k v =
     (if k' = k then (k, v) # ps else (k', v') # prop_set ps k v)"

fun prop_delete :: "('k \<times> 'v) list \<Rightarrow> 'k \<Rightarrow> ('k \<times> 'v) list" where
  "prop_delete [] k = []"
| "prop_delete ((k', v') # ps) k =
     (if k' = k then prop_delete ps k else (k', v') # prop_delete ps k)"

text \<open>ToBoolean, as used by \<open>if (x)\<close>, \<open>x && y\<close>, \<open>x || y\<close> and \<open>!!x\<close>.\<close>

fun truthy :: "jsval \<Rightarrow> bool" where
  "truthy JUndefined = False"
| "truthy JNull = False"
| "truthy (JBool b) = b"
| "truthy (JNum n) = (n \<noteq> 0)"
| "truthy (JStr s) = (s \<noteq> [])"
| "truthy (JArr xs) = True"
| "truthy (JObj ps) = True"
| "truthy (JFunction f) = True"

subsection \<open>Numbers and strings\<close>

definition digit_char :: "nat \<Rightarrow> char" where
  "digit_char d = char_of (48 + d)"

function show_nat :: "nat \<Rightarrow> string" where
  "show_nat n = (if n < 10 then [digit_char n] else show_nat (n div 10) @ [digit_char (n mod 10)])"
  by pat_completeness auto
termination
  by (relation "measure (\<lambda>n. n)") auto

declare show_nat.simps [simp del]

definition show_int :: "int \<Rightarrow> string" where
  "show_int i = (if i < 0 then CHR ''-'' # show_nat (nat (- i)) else show_nat (nat i))"

text \<open>\<open>parts.join(sep)\<close> on a list of strings.\<close>

fun join :: "string \<Rightarrow> string list \<Rightarrow> string" where
  "join sep [] = []"
| "join sep [x] = x"
| "join sep (x # y # ys) = x @ sep @ join sep (y # ys)"

text \<open>ToString, as applied by a template literal \<open>`${v}`\<close> and by a computed property
  name \<open>o[v]\<close>. An array prints its elements joined by commas, \<open>null\<close> and \<open>undefined\<close>
  elements as the empty string; a built-in function prints its name and a placeholder for
  its body.\<close>

fun js_to_string :: "jsval \<Rightarrow> string"
  and js_to_string_elems :: "jsval list \<Rightarrow> string list" where
  "js_to_string JUndefined = ''undefined''"
| "js_to_string JNull = ''null''"
| "js_to_string (JBool b) = (if b then ''true'' else ''false'')"
| "js_to_string (JNum n) = show_int n"
| "js_to_string (JStr s) = s"
| "js_to_string (JArr xs) = join '','' (js_to_string_elems xs)"
| "js_to_string (JObj ps) = ''[object Object]''"
| "js_to_string (JFunction f) = ''function '' @ f @ ''() { [native code] }''"
| "js_to_string_elems [] = []"
| "js_to_string_elems (x # xs) =
     (if x = JUndefined \<or> x = JNull then [] else js_to_string x) # js_to_string_elems xs"

text \<open>\<open>s.split(c, n)\<close> for a one-character separator: all the pieces, then the first
  \<open>n\<close> of them. \<open>s.startsWith(p)\<close> is \<^const>\<open>prefix\<close>, and a match of the regular expression
  \<open>/\.feedback\./\<close> is \<^const>\<open>sublist\<close> of the literal.\<close>

fun split_on :: "char \<Rightarrow> string \<Rightarrow> string list" where
  "split_on c [] = [[]]"
| "split_on c (x # xs) =
     (if x = c then [] # split_on c xs
      else (case split_on c xs of [] \<Rightarrow> [[x]] | y # ys \<Rightarrow> (x # y) # ys))"

definition split_limit :: "char \<Rightarrow> nat \<Rightarrow> string \<Rightarrow> string list" where
  "split_limit c n s = take n (split_on c s)"

text \<open>The destructuring \<open>const [a, b] = pieces\<close>. A missing piece is \<open>undefined\<close>; this
  module only joins the pieces again (where \<open>undefined\<close> joins as the empty string) or tests
  them for truth (where both are false), so the empty string stands for it.\<close>

definition piece :: "string list \<Rightarrow> nat \<Rightarrow> string" where
  "piece ps i = (if i < length ps then ps ! i else [])"

subsection \<open>JSON.stringify\<close>

text \<open>
  \<open>JSON.stringify(v)\<close> with no replacer and no indentation. A string is quoted with the
  escapes of QuoteJSONString; an array element that is \<open>undefined\<close> or a function prints
  as \<open>null\<close>; an object member whose value is \<open>undefined\<close> or a function is left out. The
  members appear in the object's own enumeration order. A number prints as
  \<open>Number::toString\<close> prints it, which for a safe integer is its decimal digits, with a
  minus sign when negative.
\<close>

definition safe_integer :: "int \<Rightarrow> bool" where
  "safe_integer n = (- 9007199254740991 \<le> n \<and> n \<le> 9007199254740991)"

fun not_serialised :: "jsval \<Rightarrow> bool" where
  "not_serialised JUndefined = True"
| "not_serialised (JFunction f) = True"
| "not_serialised v = False"

definition hex_char :: "nat \<Rightarrow> char" where
  "hex_char d = (if d < 10 then char_of (48 + d) else char_of (87 + d))"

definition hex_byte :: "nat \<Rightarrow> string" where
  "hex_byte n = [hex_char (n div 16), hex_char (n mod 16)]"

definition json_escape :: "char \<Rightarrow> string" where
  "json_escape c =
     (if c = CHR 0x22 then [CHR 0x5C, CHR 0x22]
      else if c = CHR 0x5C then [CHR 0x5C, CHR 0x5C]
      else if c = CHR 0x08 then [CHR 0x5C, CHR ''b'']
      else if c = CHR 0x0C then [CHR 0x5C, CHR ''f'']
      else if c = CHR 0x0A then [CHR 0x5C, CHR ''n'']
      else if c = CHR 0x0D then [CHR 0x5C, CHR ''r'']
      else if c = CHR 0x09 then [CHR 0x5C, CHR ''t'']
      else if (of_char c :: nat) < 32 then
        [CHR 0x5C, CHR ''u'', CHR ''0'', CHR ''0''] @ hex_byte (of_char c)
      else [c])"

definition QuoteJSONString :: "string \<Rightarrow> string" where
  "QuoteJSONString s = CHR 0x22 # concat (map json_escape s) @ [CHR 0x22]"

fun json_ser :: "jsval \<Rightarrow> string"
  and json_ser_elems :: "jsval list \<Rightarrow> string list"
  and json_ser_members :: "(string \<times> jsval) list \<Rightarrow> string list" where
  "json_ser JUndefined = ''null''"
| "json_ser JNull = ''null''"
| "json_ser (JBool b) = (if b then ''true'' else ''false'')"
| "json_ser (JNum n) = show_int n"
| "json_ser (JStr s) = QuoteJSONString s"
| "json_ser (JArr xs) = ''['' @ join '','' (json_ser_elems xs) @ '']''"
| "json_ser (JObj ps) = ''{'' @ join '','' (json_ser_members ps) @ ''}''"
| "json_ser (JFunction f) = ''null''"
| "json_ser_elems [] = []"
| "json_ser_elems (x # xs) = json_ser x # json_ser_elems xs"
| "json_ser_members [] = []"
| "json_ser_members ((k, v) # ps) =
     (if not_serialised v then json_ser_members ps
      else (QuoteJSONString k @ '':'' @ json_ser v) # json_ser_members ps)"

definition JSON_stringify :: "jsobj \<Rightarrow> string" where
  "JSON_stringify ps = json_ser (JObj ps)"

subsection \<open>The md5 fingerprint\<close>

text \<open>
  \<open>crypto.createHash('md5').update(s).digest('hex')\<close>: the MD5 message digest of RFC 1321
  of the bytes of the text, printed as 32 lower-case hexadecimal digits. A 32-bit word is a
  natural number below \<open>2 ^ 32\<close>, with the wrap-around of the additions and of the
  rotation written out. The 64 rounds of a block, the zero padding and the cutting of the
  padded message into blocks are loops, written as recursions.
\<close>

definition md5_s :: "nat list" where
  "md5_s = [7, 12, 17, 22, 7, 12, 17, 22, 7, 12, 17, 22, 7, 12, 17, 22,
            5, 9, 14, 20, 5, 9, 14, 20, 5, 9, 14, 20, 5, 9, 14, 20,
            4, 11, 16, 23, 4, 11, 16, 23, 4, 11, 16, 23, 4, 11, 16, 23,
            6, 10, 15, 21, 6, 10, 15, 21, 6, 10, 15, 21, 6, 10, 15, 21]"

definition md5_K :: "nat list" where
  "md5_K =
     [0xd76aa478, 0xe8c7b756, 0x242070db, 0xc1bdceee,
      0xf57c0faf, 0x4787c62a, 0xa8304613, 0xfd469501,
      0x698098d8, 0x8b44f7af, 0xffff5bb1, 0x895cd7be,
      0x6b901122, 0xfd987193, 0xa679438e, 0x49b40821,
      0xf61e2562, 0xc040b340, 0x265e5a51, 0xe9b6c7aa,
      0xd62f105d, 0x02441453, 0xd8a1e681, 0xe7d3fbc8,
      0x21e1cde6, 0xc33707d6, 0xf4d50d87, 0x455a14ed,
      0xa9e3e905, 0xfcefa3f8, 0x676f02d9, 0x8d2a4c8a,
      0xfffa3942, 0x8771f681, 0x6d9d6122, 0xfde5380c,
      0xa4beea44, 0x4bdecfa9, 0xf6bb4b60, 0xbebfbc70,
      0x289b7ec6, 0xeaa127fa, 0xd4ef3085, 0x04881d05,
      0xd9d4d039, 0xe6db99e5, 0x1fa27cf8, 0xc4ac5665,
      0xf4292244, 0x432aff97, 0xab9423a7, 0xfc93a039,
      0x655b59c3, 0x8f0ccc92, 0xffeff47d, 0x85845dd1,
      0x6fa87e4f, 0xfe2ce6e0, 0xa3014314, 0x4e0811a1,
      0xf7537e82, 0xbd3af235, 0x2ad7d2bb, 0xeb86d391]"

definition add32 :: "nat \<Rightarrow> nat \<Rightarrow> nat" where
  "add32 x y = (x + y) mod 4294967296"

definition not32 :: "nat \<Rightarrow> nat" where
  "not32 x = 4294967295 - x"

definition rotl32 :: "nat \<Rightarrow> nat \<Rightarrow> nat" where
  "rotl32 x n = (x * 2 ^ n) mod 4294967296 + x div 2 ^ (32 - n)"

definition md5_f :: "nat \<Rightarrow> nat \<Rightarrow> nat \<Rightarrow> nat \<Rightarrow> nat" where
  "md5_f i b c d =
     (if i < 16 then (b AND c) OR (not32 b AND d)
      else if i < 32 then (d AND b) OR (not32 d AND c)
      else if i < 48 then b XOR c XOR d
      else c XOR (b OR not32 d))"

definition md5_g :: "nat \<Rightarrow> nat" where
  "md5_g i =
     (if i < 16 then i
      else if i < 32 then (5 * i + 1) mod 16
      else if i < 48 then (3 * i + 5) mod 16
      else (7 * i) mod 16)"

fun md5_step :: "nat list \<Rightarrow> nat \<times> nat \<times> nat \<times> nat \<Rightarrow> nat \<Rightarrow> nat \<times> nat \<times> nat \<times> nat" where
  "md5_step M (a, b, c, d) i =
     (d, add32 b (rotl32 (add32 (add32 (add32 a (md5_f i b c d)) (md5_K ! i)) (M ! md5_g i)) (md5_s ! i)), b, c)"

function md5_rounds :: "nat list \<Rightarrow> nat \<times> nat \<times> nat \<times> nat \<Rightarrow> nat \<Rightarrow> nat \<times> nat \<times> nat \<times> nat" where
  "md5_rounds M st i = (if i < 64 then md5_rounds M (md5_step M st i) (i + 1) else st)"
  by pat_completeness auto
termination
  by (relation "measure (\<lambda>(M, st, i). 64 - i)") auto

declare md5_rounds.simps [simp del]

fun md5_block :: "nat \<times> nat \<times> nat \<times> nat \<Rightarrow> nat list \<Rightarrow> nat \<times> nat \<times> nat \<times> nat" where
  "md5_block (a0, b0, c0, d0) M =
     (case md5_rounds M (a0, b0, c0, d0) 0 of
        (a, b, c, d) \<Rightarrow> (add32 a0 a, add32 b0 b, add32 c0 c, add32 d0 d))"

declare md5_block.simps [simp del]

definition le_bytes :: "nat \<Rightarrow> nat list" where
  "le_bytes w = [w mod 256, w div 256 mod 256, w div 65536 mod 256, w div 16777216 mod 256]"

function pad_zeros :: "nat \<Rightarrow> nat list" where
  "pad_zeros n = (if n = 0 then [] else 0 # pad_zeros (n - 1))"
  by pat_completeness auto
termination
  by (relation "measure (\<lambda>n. n)") auto

declare pad_zeros.simps [simp del]

definition md5_pad :: "nat list \<Rightarrow> nat list" where
  "md5_pad bytes =
     bytes @ [128] @ pad_zeros ((119 - length bytes mod 64) mod 64)
       @ le_bytes ((8 * length bytes) mod 4294967296)
       @ le_bytes ((8 * length bytes) div 4294967296 mod 4294967296)"

fun md5_words :: "nat list \<Rightarrow> nat list" where
  "md5_words (b0 # b1 # b2 # b3 # bs) =
     (b0 + 256 * b1 + 65536 * b2 + 16777216 * b3) # md5_words bs"
| "md5_words bs = []"

function md5_blocks :: "nat list \<Rightarrow> nat list list" where
  "md5_blocks bytes =
     (if length bytes < 64 then []
      else md5_words (take 64 bytes) # md5_blocks (drop 64 bytes))"
  by pat_completeness auto
termination
  by (relation "measure length") auto

declare md5_blocks.simps [simp del]

definition md5_hex :: "string \<Rightarrow> string" where
  "md5_hex s =
     (case foldl md5_block (0x67452301, 0xefcdab89, 0x98badcfe, 0x10325476)
             (md5_blocks (md5_pad (map of_char s))) of
        (a, b, c, d) \<Rightarrow> concat (map hex_byte (le_bytes a @ le_bytes b @ le_bytes c @ le_bytes d)))"

text \<open>
  \<open>makeCacheKeyUsingOptions(key, options)\<close>. The options are \<open>undefined\<close> (\<open>None\<close>) or an
  object. The fingerprint function is the parameter \<open>md5\<close>; the module passes \<^const>\<open>md5_hex\<close>.
  The copy \<open>{...options}\<close> has the same properties in the same order.
\<close>

definition makeCacheKeyUsingOptions :: "(string \<Rightarrow> string) \<Rightarrow> string \<Rightarrow> jsobj option \<Rightarrow> string" where
  "makeCacheKeyUsingOptions md5 key options =
     (case options of
        None \<Rightarrow> key
      | Some ps \<Rightarrow>
          if length ps \<noteq> 0 then
            (let vals = ps; optionsHash = md5 (JSON_stringify vals)
             in key @ ''+'' @ optionsHash)
          else key)"

subsection \<open>JSON data and the shape of its text\<close>

text \<open>Decimal digits, and the number a string of digits denotes.\<close>

definition is_digit :: "char \<Rightarrow> bool" where
  "is_digit c = (48 \<le> (of_char c :: nat) \<and> (of_char c :: nat) \<le> 57)"

definition digit_val :: "char \<Rightarrow> nat" where
  "digit_val c = of_char c - 48"

definition dec_val :: "string \<Rightarrow> nat" where
  "dec_val s = foldl (\<lambda>a c. 10 * a + digit_val c) 0 s"

text \<open>A text that does not go on with a digit: what can follow a number inside a JSON
  text (a comma, a closing bracket or the end).\<close>

definition no_digit_head :: "string \<Rightarrow> bool" where
  "no_digit_head r = (case r of [] \<Rightarrow> True | c # cs \<Rightarrow> \<not> is_digit c)"

text \<open>The characters that QuoteJSONString copies as they are.\<close>

definition plain_char :: "char \<Rightarrow> bool" where
  "plain_char c = (c \<noteq> CHR 0x22 \<and> c \<noteq> CHR 0x5C \<and> \<not> (of_char c :: nat) < 32)"

text \<open>The characters a serialised value can start with.\<close>

definition value_start :: "char \<Rightarrow> bool" where
  "value_start c = (c = CHR ''n'' \<or> c = CHR ''t'' \<or> c = CHR ''f'' \<or> c = CHR ''-'' \<or> is_digit c
      \<or> c = CHR 0x22 \<or> c = CHR ''['' \<or> c = CHR ''{'')"

text \<open>JSON data: a value with no \<open>undefined\<close> and no function anywhere inside, whose
  numbers are safe integers. Such values are among those that \<open>JSON.parse\<close> delivers; an
  option record with a number that is not a safe integer is not covered.\<close>

fun json_data :: "jsval \<Rightarrow> bool"
  and json_data_elems :: "jsval list \<Rightarrow> bool"
  and json_data_members :: "(string \<times> jsval) list \<Rightarrow> bool" where
  "json_data JUndefined = False"
| "json_data JNull = True"
| "json_data (JBool b) = True"
| "json_data (JNum n) = safe_integer n"
| "json_data (JStr s) = True"
| "json_data (JArr xs) = json_data_elems xs"
| "json_data (JObj ps) = json_data_members ps"
| "json_data (JFunction f) = False"
| "json_data_elems [] = True"
| "json_data_elems (x # xs) = (json_data x \<and> json_data_elems xs)"
| "json_data_members [] = True"
| "json_data_members ((k, v) # ps) = (json_data v \<and> json_data_members ps)"

text \<open>The kind of a value, and the kind of value that a first character announces.\<close>

definition head_class :: "jsval \<Rightarrow> nat" where
  "head_class v = (case v of JUndefined \<Rightarrow> 0 | JNull \<Rightarrow> 0 | JBool b \<Rightarrow> 1 | JNum n \<Rightarrow> 2
      | JStr s \<Rightarrow> 3 | JArr xs \<Rightarrow> 4 | JObj ps \<Rightarrow> 5 | JFunction f \<Rightarrow> 0)"

definition char_class :: "char \<Rightarrow> nat" where
  "char_class c =
     (if c = CHR ''n'' then 0 else if c = CHR ''t'' \<or> c = CHR ''f'' then 1
      else if c = CHR ''-'' \<or> is_digit c then 2 else if c = CHR 0x22 then 3
      else if c = CHR ''['' then 4 else if c = CHR ''{'' then 5 else 6)"

text \<open>Two different texts with the same fingerprint.\<close>

definition fingerprint_collision :: "(string \<Rightarrow> string) \<Rightarrow> string \<Rightarrow> string \<Rightarrow> bool" where
  "fingerprint_collision md5 x y = (x \<noteq> y \<and> md5 x = md5 y)"

section \<open>The feedback cache\<close>

record miss =
  miss_id :: string
  miss_options :: "jsobj option"

datatype timer = SetTimeout nat | SetInterval nat

text \<open>The fields of the instance that the feedback cache, the miss worklist and the
  resolver read and write. \<open>layerImageData\<close> is read once and written nowhere.\<close>

record CaptivateInstance =
  localFeedbackCache :: "(string \<times> jsobj) list"
  pendingFeedbackChanges :: jsobj
  cacheMisses :: "miss list"
  images :: jsobj
  layerImageData :: jsval
  cacheBuilder :: "timer option"

definition constructor :: CaptivateInstance where
  "constructor = \<lparr> localFeedbackCache = [], pendingFeedbackChanges = [], cacheMisses = [],
     images = [], layerImageData = JUndefined, cacheBuilder = None \<rparr>"

fun remove_keys :: "string \<Rightarrow> string list \<Rightarrow> (string \<times> jsobj) list \<Rightarrow> (string \<times> jsobj) list" where
  "remove_keys p [] c = c"
| "remove_keys p (key # keys) c =
     remove_keys p keys (if prefix p key then prop_delete c key else c)"

definition cacheRemoveKeysWithPrefix :: "CaptivateInstance \<Rightarrow> string \<Rightarrow> CaptivateInstance" where
  "cacheRemoveKeysWithPrefix s p =
     s\<lparr>localFeedbackCache := remove_keys p (map fst (localFeedbackCache s)) (localFeedbackCache s)\<rparr>"

definition cacheStore ::
  "(string \<Rightarrow> string) \<Rightarrow> CaptivateInstance \<Rightarrow> string \<Rightarrow> string \<Rightarrow> jsobj option \<Rightarrow> jsobj \<Rightarrow> CaptivateInstance" where
  "cacheStore md5 s actorId feedbackId options state =
     (let afid = join ''~'' [actorId, feedbackId];
          cachekey = makeCacheKeyUsingOptions md5 afid options
      in s\<lparr>localFeedbackCache := prop_set (localFeedbackCache s) cachekey state\<rparr>)"

text \<open>\<open>cacheGet\<close> reads \<open>this.localFeedbackCache[cachekey]\<close>. Every cache key contains the
  \<open>~\<close> that joins the actor id and the feedback id, so none is the name of a member of
  \<open>Object.prototype\<close>, and the read finds an own property or nothing.\<close>

definition cacheGet ::
  "(string \<Rightarrow> string) \<Rightarrow> CaptivateInstance \<Rightarrow> string \<Rightarrow> string \<Rightarrow> jsobj option \<Rightarrow> jsobj option" where
  "cacheGet md5 s actorId feedbackId options =
     (let afid = join ''~'' [actorId, feedbackId];
          cachekey = makeCacheKeyUsingOptions md5 afid options
      in map_of (localFeedbackCache s) cachekey)"

definition cacheStoreFromFullId ::
  "(string \<Rightarrow> string) \<Rightarrow> CaptivateInstance \<Rightarrow> string \<Rightarrow> jsobj option \<Rightarrow> jsobj \<Rightarrow> CaptivateInstance" where
  "cacheStoreFromFullId md5 s actorFeedbackId options state =
     (let ps = split_limit CHR ''~'' 2 actorFeedbackId
      in cacheStore md5 s (piece ps 0) (piece ps 1) options state)"

definition cacheGetFromFullId ::
  "(string \<Rightarrow> string) \<Rightarrow> CaptivateInstance \<Rightarrow> string \<Rightarrow> jsobj option \<Rightarrow> jsobj option" where
  "cacheGetFromFullId md5 s actorFeedbackId options =
     (let ps = split_limit CHR ''~'' 2 actorFeedbackId
      in cacheGet md5 s (piece ps 0) (piece ps 1) options)"

text \<open>A run of stores, for statements about keys never stored.\<close>

fun cacheStores ::
  "(string \<Rightarrow> string) \<Rightarrow> CaptivateInstance \<Rightarrow> (string \<times> string \<times> jsobj option \<times> jsobj) list \<Rightarrow> CaptivateInstance" where
  "cacheStores md5 s [] = s"
| "cacheStores md5 s ((a, f, opts, st) # rest) = cacheStores md5 (cacheStore md5 s a f opts st) rest"

definition feedbackKey :: "(string \<Rightarrow> string) \<Rightarrow> string \<Rightarrow> string \<Rightarrow> jsobj option \<Rightarrow> string" where
  "feedbackKey md5 actorId feedbackId options =
     makeCacheKeyUsingOptions md5 (join ''~'' [actorId, feedbackId]) options"

section \<open>The remote engine and the image library\<close>

text \<open>
  What the module receives from outside during one pass. A call of the remote method
  \<open>_cmp_v1_queryFeedbackState\<close> is rejected, or replies with a text that is not JSON, or
  replies with the JSON text of a state object. \<open>getValueForKey("newblue.automation.layerstate")\<close>
  is rejected (\<open>None\<close>) or replies with the mapping from layer keys to layer states. The
  compositing of an overlay onto a base image with Jimp either gives the composed image, or
  fails to decode one of the images (the error is caught and the state kept), or throws:
  the encoding of the result fails, or \<open>Buffer.from\<close> refuses an image that is not a
  base64 string.
\<close>

datatype rpc_reply = Rejected | NotJSON | Parsed jsobj

datatype composite_result = Composited string | DecodeFailed | EncodeFailed

datatype error = CallRejected | BogusResponse | EncodeError

record env =
  env_md5 :: "string \<Rightarrow> string"
  env_queryFeedbackState :: "string \<Rightarrow> string \<Rightarrow> jsobj option \<Rightarrow> rpc_reply"
  env_layerstate :: "jsobj option"
  env_composite :: "jsval \<Rightarrow> jsval \<Rightarrow> composite_result"

section \<open>The feedback state resolver\<close>

text \<open>The play state found for a query key: \<open>playStates[key]\<close>, and \<open>"unknown"\<close> when
  there is no such entry or the entry has no own \<open>playState\<close> property (as is the case of
  a string, a number, a boolean, an array and a member of \<open>Object.prototype\<close>).\<close>

definition playState_of :: "jsobj \<Rightarrow> jsval \<Rightarrow> jsval" where
  "playState_of playStates key =
     (case obj_get playStates (js_to_string key) of
        JObj layer \<Rightarrow>
          if hasOwnProperty layer ''playState'' then prop_get layer ''playState''
          else JStr ''unknown''
      | _ \<Rightarrow> JStr ''unknown'')"

text \<open>The two blocks of \<open>_handleFeedbackOverlayPlayStates\<close>: the one under
  \<open>if (state.hasOwnProperty("overlayQueryKey"))\<close> and the one under
  \<open>if (state.hasOwnProperty("pngQueryKey"))\<close>.\<close>

definition overlayQueryKey_block :: "jsobj \<Rightarrow> jsobj \<Rightarrow> jsobj" where
  "overlayQueryKey_block playStates state =
     (if hasOwnProperty state ''overlayQueryKey'' then
        (let playState = playState_of playStates (prop_get state ''overlayQueryKey'');
             st1 =
               (if hasOwnProperty state ''overlayImageName_running'' then
                  prop_delete
                    (if playState = JStr ''running''
                     then prop_set state ''overlayImageName'' (prop_get state ''overlayImageName_running'')
                     else state)
                    ''overlayImageName_running''
                else state);
             st2 =
               (if hasOwnProperty st1 ''overlayImageName_paused'' then
                  prop_delete
                    (if playState = JStr ''paused''
                     then prop_set st1 ''overlayImageName'' (prop_get st1 ''overlayImageName_paused'')
                     else st1)
                    ''overlayImageName_paused''
                else st1)
         in prop_delete st2 ''overlayQueryKey'')
      else state)"

definition pngQueryKey_block :: "jsobj \<Rightarrow> jsobj \<Rightarrow> jsobj" where
  "pngQueryKey_block playStates state =
     (if hasOwnProperty state ''pngQueryKey'' then
        (let playState = playState_of playStates (prop_get state ''pngQueryKey'');
             st1 =
               (if hasOwnProperty state ''png_running'' then
                  prop_delete
                    (if playState = JStr ''running''
                     then prop_set state ''png_running'' (prop_get state ''png_running'')
                     else state)
                    ''png_running''
                else state);
             st2 =
               (if hasOwnProperty st1 ''png_paused'' then
                  prop_delete
                    (if playState = JStr ''paused''
                     then prop_set st1 ''png'' (prop_get st1 ''png_paused'')
                     else st1)
                    ''png_paused''
                else st1)
         in prop_delete st2 ''pngQueryKey'')
      else state)"

definition handleFeedbackOverlayPlayStates :: "env \<Rightarrow> jsobj \<Rightarrow> error + jsobj" where
  "handleFeedbackOverlayPlayStates e state =
     (case env_layerstate e of
        None \<Rightarrow> Inl CallRejected
      | Some playStates \<Rightarrow>
          Inr (pngQueryKey_block playStates (overlayQueryKey_block playStates state)))"

definition handleFeedbackOverlayImage :: "env \<Rightarrow> CaptivateInstance \<Rightarrow> jsobj \<Rightarrow> error + jsobj" where
  "handleFeedbackOverlayImage e s state =
     (if hasOwnProperty state ''overlayImageName'' then
        (let layerImage = obj_get (images s) (js_to_string (prop_get state ''overlayImageName''));
             state1 = prop_delete state ''overlayImageName''
         in if \<not> truthy layerImage then Inr state1
            else if hasOwnProperty state1 ''png64'' then
              (case env_composite e (prop_get state1 ''png64'') layerImage of
                 Composited base64data \<Rightarrow> Inr (prop_set state1 ''png64'' (JStr base64data))
               | DecodeFailed \<Rightarrow> Inr state1
               | EncodeFailed \<Rightarrow> Inl EncodeError)
            else Inr (prop_set state1 ''png64'' (layerImageData s)))
      else if hasOwnProperty state ''imageName'' then
        Inr (prop_delete
               (prop_set state ''png64'' (obj_get (images s) (js_to_string (prop_get state ''imageName''))))
               ''imageName'')
      else Inr state)"

definition handleFeedbackState :: "env \<Rightarrow> CaptivateInstance \<Rightarrow> jsobj \<Rightarrow> error + jsobj" where
  "handleFeedbackState e s state =
     (case (if truthy (prop_get state ''overlayQueryKey'') \<or> truthy (prop_get state ''pngQueryKey'')
            then handleFeedbackOverlayPlayStates e state else Inr state) of
        Inl err \<Rightarrow> Inl err
      | Inr state1 \<Rightarrow>
          if truthy (prop_get state1 ''overlayImageName'') \<or> truthy (prop_get state1 ''imageName'')
          then handleFeedbackOverlayImage e s state1 else Inr state1)"

text \<open>\<open>_queryFeedbackState\<close> and \<open>queryFeedbackDetails\<close>: a rejected call passes its
  rejection on; a reply that does not parse, or whose resolution fails, is the error
  \<open>"Bogus response"\<close>.\<close>

definition queryFeedbackState ::
  "env \<Rightarrow> CaptivateInstance \<Rightarrow> string \<Rightarrow> string \<Rightarrow> jsobj option \<Rightarrow> error + jsobj" where
  "queryFeedbackState e s actorId feedbackId options =
     (case env_queryFeedbackState e actorId feedbackId options of
        Rejected \<Rightarrow> Inl CallRejected
      | NotJSON \<Rightarrow> Inl BogusResponse
      | Parsed state \<Rightarrow>
          (case handleFeedbackState e s state of
             Inl err \<Rightarrow> Inl BogusResponse
           | Inr resolved \<Rightarrow> Inr resolved))"

definition queryFeedbackDetails ::
  "env \<Rightarrow> CaptivateInstance \<Rightarrow> string \<Rightarrow> string \<Rightarrow> jsobj option \<Rightarrow> error + jsobj" where
  "queryFeedbackDetails e s actorId feedbackId options =
     (case queryFeedbackState e s actorId feedbackId options of
        Inl err \<Rightarrow> Inl err
      | Inr state \<Rightarrow> Inr state)"

section \<open>The miss worklist and the rebuild pass\<close>

text \<open>A refill that the rebuild pass has asked the remote engine for: the arguments of
  \<open>queryFeedbackDetails\<close>, whose reply is stored under the same arguments.\<close>

record refill =
  refill_actorId :: string
  refill_feedbackId :: string
  refill_options :: "jsobj option"

definition stopCacheChecker :: "CaptivateInstance \<Rightarrow> CaptivateInstance" where
  "stopCacheChecker s = (if cacheBuilder s \<noteq> None then s\<lparr>cacheBuilder := None\<rparr> else s)"

text \<open>The \<open>while\<close> loop of \<open>rebuildFeedbackCache\<close>. Each round pops the last miss, deletes
  the pending change recorded under its id, splits the id at \<open>~\<close> and, when both parts are
  non-empty and the feedback id contains \<open>.feedback.\<close>, sends the query and adds its promise
  to the list. (The test \<open>!miss.id === undefined\<close> before it compares a boolean with
  \<open>undefined\<close> and never holds.)\<close>

function rebuild_loop :: "CaptivateInstance \<Rightarrow> refill list \<Rightarrow> CaptivateInstance \<times> refill list" where
  "rebuild_loop s promises =
     (if length (cacheMisses s) > 0 then
        (let miss = last (cacheMisses s);
             s1 = s\<lparr>cacheMisses := butlast (cacheMisses s)\<rparr>;
             s2 = s1\<lparr>pendingFeedbackChanges := prop_delete (pendingFeedbackChanges s1) (miss_id miss)\<rparr>;
             ps = split_limit CHR ''~'' 2 (miss_id miss);
             actorId = piece ps 0;
             feedbackId = piece ps 1
         in if actorId \<noteq> [] \<and> feedbackId \<noteq> [] \<and> sublist ''.feedback.'' feedbackId then
              rebuild_loop s2
                (promises @ [\<lparr>refill_actorId = actorId, refill_feedbackId = feedbackId,
                              refill_options = miss_options miss\<rparr>])
            else rebuild_loop s2 promises)
      else (s, promises))"
  by pat_completeness auto
termination
  by (relation "measure (\<lambda>(s, promises). length (cacheMisses s))") auto

declare rebuild_loop.simps [simp del]

text \<open>The test that the loop makes on a miss, and the refill it sends when the test
  holds.\<close>

definition valid_miss :: "miss \<Rightarrow> bool" where
  "valid_miss m =
     (let ps = split_limit CHR ''~'' 2 (miss_id m)
      in piece ps 0 \<noteq> [] \<and> piece ps 1 \<noteq> [] \<and> sublist ''.feedback.'' (piece ps 1))"

definition refill_of :: "miss \<Rightarrow> refill" where
  "refill_of m =
     (let ps = split_limit CHR ''~'' 2 (miss_id m)
      in \<lparr>refill_actorId = piece ps 0, refill_feedbackId = piece ps 1,
          refill_options = miss_options m\<rparr>)"

text \<open>The synchronous body of \<open>rebuildFeedbackCache\<close>: the instance when the function
  returns, and the refills then outstanding, in the order they were sent.\<close>

definition rebuildFeedbackCache :: "CaptivateInstance \<Rightarrow> CaptivateInstance \<times> refill list" where
  "rebuildFeedbackCache s = rebuild_loop (stopCacheChecker s) []"

text \<open>The cache key under which the reply of a refill is stored, and the outcome of the
  refill.\<close>

definition refill_key :: "env \<Rightarrow> refill \<Rightarrow> string" where
  "refill_key e r = feedbackKey (env_md5 e) (refill_actorId r) (refill_feedbackId r) (refill_options r)"

definition refill_reply :: "env \<Rightarrow> CaptivateInstance \<Rightarrow> refill \<Rightarrow> error + jsobj" where
  "refill_reply e s r = queryFeedbackDetails e s (refill_actorId r) (refill_feedbackId r) (refill_options r)"

text \<open>The replies stored under a key by the refills of a list, in order.\<close>

definition stored_replies :: "env \<Rightarrow> CaptivateInstance \<Rightarrow> string \<Rightarrow> refill list \<Rightarrow> jsobj list" where
  "stored_replies e s k rs =
     List.map_filter
       (\<lambda>r. case refill_reply e s r of
               Inr reply \<Rightarrow> if refill_key e r = k then Some reply else None
             | Inl err \<Rightarrow> None) rs"

text \<open>One refill settles: a reply is stored in the cache, a failure is dropped.\<close>

definition refill_settled :: "env \<Rightarrow> CaptivateInstance \<Rightarrow> refill \<Rightarrow> CaptivateInstance" where
  "refill_settled e s r =
     (case queryFeedbackDetails e s (refill_actorId r) (refill_feedbackId r) (refill_options r) of
        Inr reply \<Rightarrow> cacheStore (env_md5 e) s (refill_actorId r) (refill_feedbackId r) (refill_options r) reply
      | Inl err \<Rightarrow> s)"

text \<open>All the refills of a pass settle, here in the order they were sent and with nothing
  else running in between; then \<open>Promise.allSettled\<close> calls \<open>checkFeedbacks\<close>. The second
  component counts the calls of \<open>checkFeedbacks\<close>.\<close>

fun refills_settled :: "env \<Rightarrow> CaptivateInstance \<Rightarrow> refill list \<Rightarrow> CaptivateInstance" where
  "refills_settled e s [] = s"
| "refills_settled e s (r # rs) = refills_settled e (refill_settled e s r) rs"

definition allSettled :: "env \<Rightarrow> CaptivateInstance \<Rightarrow> refill list \<Rightarrow> CaptivateInstance \<times> nat" where
  "allSettled e s promises =
     (if length promises > 0 then (refills_settled e s promises, 1) else (s, 0))"

text \<open>A whole pass: the synchronous body, then the settling of its refills.\<close>

definition rebuild_pass :: "env \<Rightarrow> CaptivateInstance \<Rightarrow> CaptivateInstance \<times> nat" where
  "rebuild_pass e s = (let (s1, promises) = rebuildFeedbackCache s in allSettled e s1 promises)"

text \<open>\<open>startCacheChecker\<close>: with misses on the worklist it runs the synchronous body of a
  rebuild and arms a 500 ms timeout that will call it again.\<close>

definition startCacheChecker :: "CaptivateInstance \<Rightarrow> CaptivateInstance \<times> refill list" where
  "startCacheChecker s =
     (let s1 = stopCacheChecker s
      in if length (cacheMisses s1) > 0 then
           (let (s2, promises) = rebuildFeedbackCache s1
            in (s2\<lparr>cacheBuilder := Some (SetTimeout 500)\<rparr>, promises))
         else (s1, []))"

definition primeFeedbackState ::
  "(string \<Rightarrow> string) \<Rightarrow> CaptivateInstance \<Rightarrow> string \<Rightarrow> jsobj option \<Rightarrow> CaptivateInstance" where
  "primeFeedbackState md5 s actorFeedbackId options =
     (if cacheGetFromFullId md5 s actorFeedbackId options = None
      then s\<lparr>cacheMisses := cacheMisses s @ [\<lparr>miss_id = actorFeedbackId, miss_options = options\<rparr>]\<rparr>
      else s)"

section \<open>The feedback callback\<close>

record event =
  ev_feedbackId :: string
  ev_options :: "jsobj option"
  ev_type :: string

text \<open>What \<open>handleFeedback\<close> makes of a cached entry before it returns it (the block
  under \<open>if (result.hasOwnProperty("imageName"))\<close>): an entry with an \<open>imageName\<close> is
  copied, the name removed and what \<open>this.images[name]\<close> gives, unless that is
  \<open>undefined\<close> or \<open>null\<close>, put under \<open>png64\<close>. The read is \<^const>\<open>obj_get\<close>: for a
  name such as \<open>constructor\<close> it gives a member of \<open>Object.prototype\<close>.\<close>

definition cached_view :: "CaptivateInstance \<Rightarrow> jsobj \<Rightarrow> jsobj" where
  "cached_view s result =
     (if hasOwnProperty result ''imageName'' then
        (let processedResult = prop_delete result ''imageName'';
             imageData = obj_get (images s) (js_to_string (prop_get result ''imageName''))
         in if imageData \<noteq> JUndefined \<and> imageData \<noteq> JNull
            then prop_set processedResult ''png64'' imageData
            else processedResult)
      else result)"

text \<open>The first part of \<open>handleFeedback\<close>, up to the call of \<open>startCacheChecker\<close>: the
  cache lookup, the image of a cached \<open>imageName\<close>, and the push of a miss when there is
  no entry or the entry is marked in \<open>pendingFeedbackChanges\<close>. It gives the instance and
  the \<open>result\<close> variable (\<open>None\<close> is \<open>undefined\<close>). The variable \<open>cacheKey\<close> that the
  function computes first is used nowhere.\<close>

definition handleFeedback_lookup ::
  "(string \<Rightarrow> string) \<Rightarrow> CaptivateInstance \<Rightarrow> event \<Rightarrow> CaptivateInstance \<times> jsobj option" where
  "handleFeedback_lookup md5 s ev =
     (case cacheGetFromFullId md5 s (ev_feedbackId ev) (ev_options ev) of
        Some result \<Rightarrow>
          (let result1 = cached_view s result
           in if truthy (obj_get (pendingFeedbackChanges s) (ev_feedbackId ev)) then
                (s\<lparr>cacheMisses := cacheMisses s @
                      [\<lparr>miss_id = ev_feedbackId ev, miss_options = ev_options ev\<rparr>]\<rparr>, Some result1)
              else (s, Some result1))
      | None \<Rightarrow>
          (s\<lparr>cacheMisses := cacheMisses s @
                [\<lparr>miss_id = ev_feedbackId ev, miss_options = ev_options ev\<rparr>]\<rparr>, None))"

text \<open>The value returned: \<open>event.type == 'boolean' ? !!result?.value : result\<close>.\<close>

definition feedback_value :: "event \<Rightarrow> jsobj option \<Rightarrow> jsval" where
  "feedback_value ev result =
     (if ev_type ev = ''boolean'' then
        JBool (case result of None \<Rightarrow> False | Some r \<Rightarrow> truthy (prop_get r ''value''))
      else (case result of None \<Rightarrow> JUndefined | Some r \<Rightarrow> JObj r))"

text \<open>\<open>handleFeedback\<close> has no \<open>await\<close>: it runs to its end at once. It gives the instance
  when it returns, the refills sent by the checker it started, and the value returned.\<close>

definition handleFeedback ::
  "(string \<Rightarrow> string) \<Rightarrow> CaptivateInstance \<Rightarrow> event \<Rightarrow> CaptivateInstance \<times> refill list \<times> jsval" where
  "handleFeedback md5 s ev =
     (let (s1, result) = handleFeedback_lookup md5 s ev;
          (s2, promises) = startCacheChecker s1
      in (s2, promises, feedback_value ev result))"

section \<open>The feedback change event\<close>


section \<open>The connection and its watchdog\<close>

text \<open>
  The fields of the instance that \<open>initQWebChannel\<close> and the handlers of its socket read
  and write: the configuration (\<open>bonjour_host\<close>, \<open>host\<close>, \<open>port\<close>, \<open>needsNewConfig\<close>), the
  status last reported with \<open>updateStatus\<close>, and the timer \<open>connectionWatchdog\<close>
  (\<open>None\<close> is \<open>undefined\<close>).
\<close>

datatype InstanceStatus = Connecting | Ok | BadConfig | Disconnected

record connection =
  bonjour_host :: jsval
  host :: jsval
  port :: jsval
  needsNewConfig :: bool
  status :: "InstanceStatus option"
  connectionWatchdog :: "timer option"

text \<open>The address that \<open>initQWebChannel\<close> derives from the configuration, if any.\<close>

definition serverUrl :: "connection \<Rightarrow> string option" where
  "serverUrl c =
     (if truthy (bonjour_host c) then Some (''ws://'' @ js_to_string (bonjour_host c))
      else if truthy (host c) \<and> truthy (port c)
           then Some (''ws://'' @ js_to_string (host c) @ '':'' @ js_to_string (port c))
           else None)"

text \<open>\<open>initQWebChannel\<close>: without an address it returns at once; with one it reports
  \<open>Connecting\<close> and opens a socket to it (the second component).\<close>

definition initQWebChannel :: "connection \<Rightarrow> connection \<times> string option" where
  "initQWebChannel c =
     (case serverUrl c of
        None \<Rightarrow> (c, None)
      | Some url \<Rightarrow> (c\<lparr>status := Some Connecting\<rparr>, Some url))"

text \<open>The handlers of the socket events. On \<open>open\<close> the watchdog is cleared (the set-up of
  the channel that follows touches none of these fields until its handshake reports \<open>Ok\<close>).\<close>

definition socket_open :: "connection \<Rightarrow> connection" where
  "socket_open c = (if connectionWatchdog c \<noteq> None then c\<lparr>connectionWatchdog := None\<rparr> else c)"

definition socket_error :: "connection \<Rightarrow> connection" where
  "socket_error c =
     c\<lparr>status := Some BadConfig, needsNewConfig := True, port := JStr [], host := JStr []\<rparr>"

definition socket_close :: "connection \<Rightarrow> connection" where
  "socket_close c =
     (let c1 = c\<lparr>status := Some Disconnected\<rparr>
      in if connectionWatchdog c1 = None then c1\<lparr>connectionWatchdog := Some (SetInterval 5000)\<rparr>
         else c1)"

text \<open>One step of the connection: a socket event, or a tick of the armed watchdog, whose
  callback is \<open>initQWebChannel\<close>. The second component is the address of the socket opened
  by the step, if it opens one.\<close>

datatype conn_event = SocketOpen | SocketError | SocketClose | WatchdogTick

fun conn_step :: "connection \<Rightarrow> conn_event \<Rightarrow> connection \<times> string option" where
  "conn_step c SocketOpen = (socket_open c, None)"
| "conn_step c SocketError = (socket_error c, None)"
| "conn_step c SocketClose = (socket_close c, None)"
| "conn_step c WatchdogTick = (if connectionWatchdog c \<noteq> None then initQWebChannel c else (c, None))"

section \<open>Sample surroundings\<close>

text \<open>A remote engine whose reply to a feedback query depends on the feedback id, with the
  layer states given; no image decodes.\<close>

definition sample_env :: "(string \<Rightarrow> rpc_reply) \<Rightarrow> jsobj option \<Rightarrow> env" where
  "sample_env reply layers =
     \<lparr> env_md5 = md5_hex, env_queryFeedbackState = (\<lambda>actorId feedbackId options. reply feedbackId),
       env_layerstate = layers, env_composite = (\<lambda>base overlay. DecodeFailed) \<rparr>"

text \<open>An instance with two misses on the worklist, a remote engine that rejects the query
  for one of them and answers the other, and the instance after a feedback change event.\<close>

definition two_misses :: CaptivateInstance where
  "two_misses = constructor\<lparr>cacheMisses :=
     [\<lparr>miss_id = ''A~x.feedback.bad'', miss_options = None\<rparr>,
      \<lparr>miss_id = ''A~x.feedback.ok'', miss_options = None\<rparr>]\<rparr>"

definition bad_fails :: env where
  "bad_fails = sample_env (\<lambda>f. if f = ''x.feedback.bad'' then Rejected
                               else Parsed [(''value'', JBool True)]) None"




text \<open>A connection configured with the default host and port, while connecting.\<close>

definition default_connection :: connection where
  "default_connection =
     \<lparr> bonjour_host = JUndefined, host = JStr ''127.0.0.1'', port = JNum 9023,
       needsNewConfig = False, status = Some Connecting, connectionWatchdog = None \<rparr>"

section \<open>Properties of objects\<close>

lemma map_of_prop_set: "map_of (prop_set ps k v) = (map_of ps)(k \<mapsto> v)"
  by (induction ps) auto

lemma map_of_prop_delete: "map_of (prop_delete ps k) = (map_of ps)(k := None)"
  by (induction ps) auto

lemma prop_delete_filter: "prop_delete ps k = filter (\<lambda>e. fst e \<noteq> k) ps"
  by (induction ps) auto

text \<open>The read through the prototype is the own-property read on every object that has
  the property itself and on every name that \<open>Object.prototype\<close> does not have.\<close>

lemma obj_get_own: "hasOwnProperty obj k \<Longrightarrow> obj_get obj k = prop_get obj k"
  by (auto simp: obj_get_def prop_get_def hasOwnProperty_def)

lemma obj_get_plain_name: "map_of Object_prototype k = None \<Longrightarrow> obj_get obj k = prop_get obj k"
  by (simp add: obj_get_def prop_get_def split: option.splits)

section \<open>Properties of JSON.stringify and of the cache key\<close>

lemma of_char_digit_char: "d < 10 \<Longrightarrow> (of_char (digit_char d) :: nat) = 48 + d"
  by (simp add: digit_char_def)

lemma is_digit_digit_char: "d < 10 \<Longrightarrow> is_digit (digit_char d)"
  by (simp add: is_digit_def of_char_digit_char)

lemma digit_val_digit_char: "d < 10 \<Longrightarrow> digit_val (digit_char d) = d"
  by (simp add: digit_val_def of_char_digit_char)

lemma show_nat_digits: "\<forall>c \<in> set (show_nat n). is_digit c"
proof (induction n rule: show_nat.induct)
  case (1 n)
  show ?case
  proof (cases "n < 10")
    case True
    then show ?thesis by (subst show_nat.simps) (simp add: is_digit_digit_char)
  next
    case False
    with 1 show ?thesis by (subst show_nat.simps) (simp add: is_digit_digit_char)
  qed
qed

lemma show_nat_not_Nil: "show_nat n \<noteq> []"
  by (subst show_nat.simps) simp

lemma dec_val_show_nat: "dec_val (show_nat n) = n"
proof (induction n rule: show_nat.induct)
  case (1 n)
  show ?case
  proof (cases "n < 10")
    case True
    then show ?thesis by (subst show_nat.simps) (simp add: dec_val_def digit_val_digit_char)
  next
    case False
    with 1 have "dec_val (show_nat (n div 10)) = n div 10" by simp
    with False show ?thesis
      by (subst show_nat.simps) (simp add: dec_val_def digit_val_digit_char)
  qed
qed

lemma show_nat_inj: "show_nat n = show_nat m \<Longrightarrow> n = m"
  by (metis dec_val_show_nat)

lemma takeWhile_digits:
  "\<forall>c \<in> set ds. is_digit c \<Longrightarrow> no_digit_head r \<Longrightarrow> takeWhile is_digit (ds @ r) = ds"
  by (cases r) (simp_all add: no_digit_head_def takeWhile_append2 takeWhile_eq_all_conv)

lemma show_nat_append_inj:
  assumes "show_nat n @ r = show_nat m @ r'" and "no_digit_head r" and "no_digit_head r'"
  shows "n = m \<and> r = r'"
proof -
  have "takeWhile is_digit (show_nat n @ r) = show_nat n"
    by (rule takeWhile_digits [OF show_nat_digits assms(2)])
  moreover have "takeWhile is_digit (show_nat m @ r') = show_nat m"
    by (rule takeWhile_digits [OF show_nat_digits assms(3)])
  ultimately have eq: "show_nat n = show_nat m" using assms(1) by simp
  with assms(1) show ?thesis by (simp add: show_nat_inj)
qed

lemma hd_show_nat_digit: "is_digit (hd (show_nat n))"
  using show_nat_digits [of n] show_nat_not_Nil [of n] by (cases "show_nat n") simp_all

lemma minus_not_digit: "\<not> is_digit CHR ''-''"
  by (simp add: is_digit_def)

lemma show_int_append_inj:
  assumes "show_int i @ r = show_int j @ r'" and "no_digit_head r" and "no_digit_head r'"
  shows "i = j \<and> r = r'"
proof -
  have neq: "CHR ''-'' # x \<noteq> show_nat n @ y" for x n y
  proof
    assume "CHR ''-'' # x = show_nat n @ y"
    then have "hd (show_nat n) = CHR ''-''"
      using show_nat_not_Nil [of n] by (cases "show_nat n") simp_all
    with hd_show_nat_digit [of n] minus_not_digit show False by simp
  qed
  show ?thesis
  proof (cases "i < 0"; cases "j < 0")
    assume "i < 0" "j < 0"
    with assms show ?thesis
      using show_nat_append_inj [of "nat (- i)" r "nat (- j)" r'] by (auto simp: show_int_def)
  next
    assume "i < 0" "\<not> j < 0"
    with assms(1) neq show ?thesis by (simp add: show_int_def)
  next
    assume "\<not> i < 0" "j < 0"
    with assms(1) neq [of _ "nat i"] show ?thesis by (simp add: show_int_def) metis
  next
    assume "\<not> i < 0" "\<not> j < 0"
    with assms show ?thesis
      using show_nat_append_inj [of "nat i" r "nat j" r'] by (auto simp: show_int_def)
  qed
qed

lemma of_char_hex_char:
  "d < 16 \<Longrightarrow> (of_char (hex_char d) :: nat) = (if d < 10 then 48 + d else 87 + d)"
  by (simp add: hex_char_def)

lemma hex_char_inj: "a < 16 \<Longrightarrow> b < 16 \<Longrightarrow> hex_char a = hex_char b \<Longrightarrow> a = b"
proof -
  assume a: "a < 16" and b: "b < 16" and eq: "hex_char a = hex_char b"
  from eq have "(of_char (hex_char a) :: nat) = of_char (hex_char b)" by simp
  with a b show "a = b" by (simp add: of_char_hex_char split: if_splits)
qed

lemma hex_byte_inj:
  assumes "n < 32" and "m < 32" and "hex_byte n = hex_byte m"
  shows "n = (m :: nat)"
proof -
  from assms(3) have 3: "hex_char (n div 16) = hex_char (m div 16)"
    and 4: "hex_char (n mod 16) = hex_char (m mod 16)"
    by (simp_all add: hex_byte_def)
  have "n div 16 = m div 16"
    by (rule hex_char_inj [OF _ _ 3]) (use assms(1,2) in simp_all)
  moreover have "n mod 16 = m mod 16"
    by (rule hex_char_inj [OF _ _ 4]) simp_all
  ultimately show ?thesis by (metis div_mult_mod_eq)
qed

lemma json_escape_plain: "plain_char c \<Longrightarrow> json_escape c = [c]"
  by (auto simp: plain_char_def json_escape_def)

lemma json_escape_forms:
  "\<not> plain_char c \<Longrightarrow>
     (c = CHR 0x22 \<and> json_escape c = [CHR 0x5C, CHR 0x22])
   \<or> (c = CHR 0x5C \<and> json_escape c = [CHR 0x5C, CHR 0x5C])
   \<or> (c = CHR 0x08 \<and> json_escape c = [CHR 0x5C, CHR ''b''])
   \<or> (c = CHR 0x0C \<and> json_escape c = [CHR 0x5C, CHR ''f''])
   \<or> (c = CHR 0x0A \<and> json_escape c = [CHR 0x5C, CHR ''n''])
   \<or> (c = CHR 0x0D \<and> json_escape c = [CHR 0x5C, CHR ''r''])
   \<or> (c = CHR 0x09 \<and> json_escape c = [CHR 0x5C, CHR ''t''])
   \<or> ((of_char c :: nat) < 32
        \<and> json_escape c = [CHR 0x5C, CHR ''u'', CHR ''0'', CHR ''0''] @ hex_byte (of_char c))"
  by (simp add: plain_char_def json_escape_def) blast

lemma hex_byte_append_iff:
  "(n::nat) < 32 \<Longrightarrow> m < 32 \<Longrightarrow> (hex_byte n @ x = hex_byte m @ x') = (n = m \<and> x = x')"
proof -
  assume n: "n < 32" and m: "m < 32"
  have l: "length (hex_byte k) = 2" for k by (simp add: hex_byte_def)
  have "(hex_byte n @ x = hex_byte m @ x') = (hex_byte n = hex_byte m \<and> x = x')"
    by (simp add: l append_eq_append_conv)
  also have "\<dots> = (n = m \<and> x = x')"
    using hex_byte_inj [OF n m] by blast
  finally show ?thesis .
qed

lemma json_escape_prefix_code:
  assumes "json_escape c @ x = json_escape c' @ x'"
  shows "c = c' \<and> x = x'"
proof (cases "plain_char c"; cases "plain_char c'")
  assume "plain_char c" "plain_char c'"
  with assms show ?thesis by (simp add: json_escape_plain)
next
  assume p: "plain_char c" and n: "\<not> plain_char c'"
  from json_escape_forms [OF n] obtain e where e: "json_escape c' = CHR 0x5C # e"
    by (elim disjE conjE) simp_all
  from assms p show ?thesis unfolding e by (simp add: json_escape_plain plain_char_def)
next
  assume n: "\<not> plain_char c" and p: "plain_char c'"
  from json_escape_forms [OF n] obtain e where e: "json_escape c = CHR 0x5C # e"
    by (elim disjE conjE) simp_all
  from assms p show ?thesis unfolding e by (auto simp: json_escape_plain plain_char_def)
next
  assume n: "\<not> plain_char c" and n': "\<not> plain_char c'"
  from json_escape_forms [OF n] json_escape_forms [OF n'] assms show ?thesis
    by (elim disjE conjE) (simp_all add: hex_byte_append_iff)
qed

lemma json_escape_hd: "\<exists>a e. json_escape c = a # e \<and> a \<noteq> CHR 0x22"
proof (cases "plain_char c")
  case True
  then show ?thesis by (simp add: json_escape_plain plain_char_def)
next
  case False
  from json_escape_forms [OF this] show ?thesis by (elim disjE conjE) simp_all
qed

lemma escapes_append_inj:
  "concat (map json_escape s) @ CHR 0x22 # r = concat (map json_escape s') @ CHR 0x22 # r'
   \<Longrightarrow> s = s' \<and> r = r'"
proof (induction s arbitrary: s')
  case Nil
  show ?case
  proof (cases s')
    case Nil
    with Nil.prems show ?thesis by simp
  next
    case (Cons c' t')
    from json_escape_hd [of c'] obtain a e where "json_escape c' = a # e" "a \<noteq> CHR 0x22" by blast
    with Nil.prems Cons show ?thesis by simp
  qed
next
  case (Cons c t)
  show ?case
  proof (cases s')
    case Nil
    from json_escape_hd [of c] obtain a e where "json_escape c = a # e" "a \<noteq> CHR 0x22" by blast
    with Cons.prems Nil show ?thesis by simp
  next
    case (Cons c' t')
    with Cons.prems have
      "json_escape c @ (concat (map json_escape t) @ CHR 0x22 # r)
       = json_escape c' @ (concat (map json_escape t') @ CHR 0x22 # r')"
      by simp
    from json_escape_prefix_code [OF this]
    have "c = c'" and "concat (map json_escape t) @ CHR 0x22 # r = concat (map json_escape t') @ CHR 0x22 # r'"
      by simp_all
    with Cons.IH [of t'] Cons show ?thesis by simp
  qed
qed

lemma QuoteJSONString_append_inj:
  "QuoteJSONString s @ r = QuoteJSONString s' @ r' \<Longrightarrow> s = s' \<and> r = r'"
  using escapes_append_inj [of s r s' r'] by (simp add: QuoteJSONString_def)

lemma QuoteJSONString_Cons: "QuoteJSONString s = CHR 0x22 # (concat (map json_escape s) @ [CHR 0x22])"
  by (simp add: QuoteJSONString_def)

lemma show_int_Cons: "\<exists>c rest. show_int n = c # rest \<and> (c = CHR ''-'' \<or> is_digit c)"
proof (cases "n < 0")
  case True
  then show ?thesis by (simp add: show_int_def)
next
  case False
  obtain c rest where cr: "show_nat (nat n) = c # rest"
    using show_nat_not_Nil [of "nat n"] by (cases "show_nat (nat n)") simp_all
  with hd_show_nat_digit [of "nat n"] have "is_digit c" by simp
  with cr False show ?thesis by (simp add: show_int_def)
qed

lemma json_ser_Cons: "\<exists>c rest. json_ser v = c # rest \<and> value_start c"
proof (cases v)
  case (JNum n)
  from show_int_Cons [of n] obtain c rest where "show_int n = c # rest" "c = CHR ''-'' \<or> is_digit c"
    by blast
  with JNum show ?thesis by (auto simp: value_start_def)
qed (auto simp: value_start_def QuoteJSONString_Cons)

lemma not_value_start: "\<not> value_start CHR '']''" "\<not> value_start CHR ''}''" "\<not> value_start CHR '',''"
  "\<not> value_start CHR '':''"
  by (simp_all add: value_start_def is_digit_def)

lemma no_digit_head_simps:
  "no_digit_head []" "no_digit_head (CHR '']'' # r)" "no_digit_head (CHR ''}'' # r)"
  "no_digit_head (CHR '','' # r)"
  by (simp_all add: no_digit_head_def is_digit_def)

lemma join_Cons: "join sep (x # xs) = (if xs = [] then x else x @ sep @ join sep xs)"
  by (cases xs) simp_all

lemma show_int_hd_neq:
  "a \<noteq> CHR ''-'' \<Longrightarrow> \<not> is_digit a \<Longrightarrow> a # x \<noteq> show_int n @ y"
  "a \<noteq> CHR ''-'' \<Longrightarrow> \<not> is_digit a \<Longrightarrow> show_int n @ y \<noteq> a # x"
  using show_int_Cons [of n] by auto

lemma not_digit_chars:
  "\<not> is_digit CHR ''n''" "\<not> is_digit CHR ''t''" "\<not> is_digit CHR ''f''" "\<not> is_digit CHR 0x22"
  "\<not> is_digit CHR ''[''" "\<not> is_digit CHR ''{''"
  by (simp_all add: is_digit_def)

lemma json_ser_neq_close:
  "json_ser v @ y \<noteq> CHR '']'' # x" "json_ser v @ y \<noteq> CHR ''}'' # x"
  "CHR '']'' # x \<noteq> json_ser v @ y" "CHR ''}'' # x \<noteq> json_ser v @ y"
  using json_ser_Cons [of v] not_value_start by auto

lemma char_class_digit: "c = CHR ''-'' \<or> is_digit c \<Longrightarrow> char_class c = 2"
  by (auto simp: char_class_def is_digit_def)

lemma json_ser_head_class: "\<exists>c rest. json_ser v = c # rest \<and> char_class c = head_class v"
proof (cases v)
  case (JNum n)
  from show_int_Cons [of n] obtain c rest where "show_int n = c # rest" "c = CHR ''-'' \<or> is_digit c"
    by blast
  with JNum show ?thesis by (simp add: head_class_def char_class_digit)
next
  case (JBool b)
  then show ?thesis by (cases b) (simp_all add: head_class_def char_class_def)
qed (simp_all add: head_class_def char_class_def QuoteJSONString_Cons not_digit_chars)

lemma json_ser_same_class:
  assumes "json_ser v @ r = json_ser v' @ r'"
  shows "head_class v = head_class v'"
proof -
  from json_ser_head_class [of v] obtain c rest where c: "json_ser v = c # rest" "char_class c = head_class v"
    by blast
  from json_ser_head_class [of v'] obtain c' rest' where c': "json_ser v' = c' # rest'" "char_class c' = head_class v'"
    by blast
  from assms c c' have "c = c'" by simp
  with c c' show ?thesis by simp
qed

lemma json_data_serialised: "json_data v \<Longrightarrow> \<not> not_serialised v"
  by (cases v) simp_all

lemma json_ser_elems_Nil_iff: "json_ser_elems ys = [] \<longleftrightarrow> ys = []"
  by (cases ys) simp_all

lemma json_ser_members_Nil_iff: "json_data_members qs \<Longrightarrow> json_ser_members qs = [] \<longleftrightarrow> qs = []"
proof (cases qs)
  case (Cons p t)
  assume d: "json_data_members qs"
  obtain k v where "p = (k, v)" by (cases p)
  with d Cons have "\<not> not_serialised v" by (auto dest: json_data_serialised)
  with Cons \<open>p = (k, v)\<close> show ?thesis by simp
qed simp

lemma json_ser_inj_aux:
  "json_data v \<longrightarrow> (\<forall>v' r r'. json_data v' \<longrightarrow> no_digit_head r \<longrightarrow> no_digit_head r'
      \<longrightarrow> json_ser v @ r = json_ser v' @ r' \<longrightarrow> v = v' \<and> r = r')"
  "json_data_elems xs \<longrightarrow> (\<forall>xs' r r'. json_data_elems xs'
      \<longrightarrow> join '','' (json_ser_elems xs) @ CHR '']'' # r = join '','' (json_ser_elems xs') @ CHR '']'' # r'
      \<longrightarrow> xs = xs' \<and> r = r')"
  "json_data_members ps \<longrightarrow> (\<forall>ps' r r'. json_data_members ps'
      \<longrightarrow> join '','' (json_ser_members ps) @ CHR ''}'' # r = join '','' (json_ser_members ps') @ CHR ''}'' # r'
      \<longrightarrow> ps = ps' \<and> r = r')"
proof (induction v and xs and ps rule: json_ser_json_ser_elems_json_ser_members.induct)
  case 1
  show ?case by simp
next
  case 2
  show ?case
  proof (intro impI allI)
    fix v' r r'
    assume d: "json_data v'" and eq: "json_ser JNull @ r = json_ser v' @ r'"
    from json_ser_same_class [OF eq] d have "v' = JNull"
      by (cases v') (simp_all add: head_class_def)
    with eq show "JNull = v' \<and> r = r'" by simp
  qed
next
  case (3 b)
  show ?case
  proof (intro impI allI)
    fix v' r r'
    assume d: "json_data v'" and eq: "json_ser (JBool b) @ r = json_ser v' @ r'"
    from json_ser_same_class [OF eq] d obtain b' where v': "v' = JBool b'"
      by (cases v') (simp_all add: head_class_def)
    with eq show "JBool b = v' \<and> r = r'" by (cases b; cases b') simp_all
  qed
next
  case (4 n)
  show ?case
  proof (intro impI allI)
    fix v' r r'
    assume d: "json_data v'" and nd: "no_digit_head r" "no_digit_head r'"
      and eq: "json_ser (JNum n) @ r = json_ser v' @ r'"
    from json_ser_same_class [OF eq] d obtain m where v': "v' = JNum m"
      by (cases v') (simp_all add: head_class_def)
    with eq have "show_int n @ r = show_int m @ r'" by simp
    from show_int_append_inj [OF this nd] v' show "JNum n = v' \<and> r = r'" by simp
  qed
next
  case (5 s)
  show ?case
  proof (intro impI allI)
    fix v' r r'
    assume d: "json_data v'" and eq: "json_ser (JStr s) @ r = json_ser v' @ r'"
    from json_ser_same_class [OF eq] d obtain s' where v': "v' = JStr s'"
      by (cases v') (simp_all add: head_class_def)
    with eq have "QuoteJSONString s @ r = QuoteJSONString s' @ r'" by simp
    from QuoteJSONString_append_inj [OF this] v' show "JStr s = v' \<and> r = r'" by simp
  qed
next
  case (6 xs)
  show ?case
  proof (intro impI allI)
    fix v' r r'
    assume d0: "json_data (JArr xs)" and d: "json_data v'"
      and eq: "json_ser (JArr xs) @ r = json_ser v' @ r'"
    from json_ser_same_class [OF eq] d obtain xs' where v': "v' = JArr xs'"
      by (cases v') (simp_all add: head_class_def)
    with eq have e: "join '','' (json_ser_elems xs) @ CHR '']'' # r = join '','' (json_ser_elems xs') @ CHR '']'' # r'"
      by simp
    from d0 d v' have dd: "json_data_elems xs" "json_data_elems xs'" by simp_all
    from 6 dd e have "xs = xs' \<and> r = r'" by blast
    with v' show "JArr xs = v' \<and> r = r'" by simp
  qed
next
  case (7 ps)
  show ?case
  proof (intro impI allI)
    fix v' r r'
    assume d0: "json_data (JObj ps)" and d: "json_data v'"
      and eq: "json_ser (JObj ps) @ r = json_ser v' @ r'"
    from json_ser_same_class [OF eq] d obtain ps' where v': "v' = JObj ps'"
      by (cases v') (simp_all add: head_class_def)
    with eq have e: "join '','' (json_ser_members ps) @ CHR ''}'' # r = join '','' (json_ser_members ps') @ CHR ''}'' # r'"
      by simp
    from d0 d v' have dd: "json_data_members ps" "json_data_members ps'" by simp_all
    from 7 dd e have "ps = ps' \<and> r = r'" by blast
    with v' show "JObj ps = v' \<and> r = r'" by simp
  qed
next
  case (8 f)
  show ?case by simp
next
  case 9
  show ?case
  proof (intro impI allI)
    fix xs' r r'
    assume eq: "join '','' (json_ser_elems []) @ CHR '']'' # r = join '','' (json_ser_elems xs') @ CHR '']'' # r'"
    show "[] = xs' \<and> r = r'"
    proof (cases xs')
      case Nil
      with eq show ?thesis by simp
    next
      case (Cons x' t')
      with eq have "CHR '']'' # r = json_ser x' @ ((if t' = [] then [] else CHR '','' # join '','' (json_ser_elems t')) @ CHR '']'' # r')"
        by (cases "t' = []") (simp_all add: join_Cons json_ser_elems_Nil_iff)
      with json_ser_neq_close(3) show ?thesis by blast
    qed
  qed
next
  case (10 x xs)
  show ?case
  proof (intro impI allI)
    fix xs' r r'
    assume d0: "json_data_elems (x # xs)" and d: "json_data_elems xs'"
      and eq: "join '','' (json_ser_elems (x # xs)) @ CHR '']'' # r = join '','' (json_ser_elems xs') @ CHR '']'' # r'"
    let ?R = "(if xs = [] then [] else CHR '','' # join '','' (json_ser_elems xs)) @ CHR '']'' # r"
    note el = json_ser_elems_Nil_iff
    from eq have eqL: "json_ser x @ ?R = join '','' (json_ser_elems xs') @ CHR '']'' # r'"
      by (cases "xs = []") (simp_all add: join_Cons el)
    show "x # xs = xs' \<and> r = r'"
    proof (cases xs')
      case Nil
      with eqL have "json_ser x @ ?R = CHR '']'' # r'" by simp
      with json_ser_neq_close(1) show ?thesis by blast
    next
      case (Cons x' t')
      let ?R' = "(if t' = [] then [] else CHR '','' # join '','' (json_ser_elems t')) @ CHR '']'' # r'"
      from eqL Cons have e: "json_ser x @ ?R = json_ser x' @ ?R'"
        by (cases "t' = []") (simp_all add: join_Cons el)
      have nd: "no_digit_head ?R" "no_digit_head ?R'" by (simp_all add: no_digit_head_simps)
      from d0 d Cons have dx: "json_data x" "json_data x'" "json_data_elems xs" "json_data_elems t'"
        by simp_all
      from 10(1) dx(1,2) nd e have xR: "x = x' \<and> ?R = ?R'" by blast
      have "xs = t' \<and> r = r'"
      proof (cases "xs = []")
        case True
        with xR show ?thesis by (cases "t' = []") simp_all
      next
        case False
        show ?thesis
        proof (cases "t' = []")
          case True
          with xR False show ?thesis by simp
        next
          case f: False
          with xR False
          have "join '','' (json_ser_elems xs) @ CHR '']'' # r = join '','' (json_ser_elems t') @ CHR '']'' # r'"
            by simp
          with 10(2) dx(3,4) show ?thesis by blast
        qed
      qed
      with xR Cons show ?thesis by simp
    qed
  qed
next
  case 11
  show ?case
  proof (intro impI allI)
    fix ps' r r'
    assume d: "json_data_members ps'"
      and eq: "join '','' (json_ser_members []) @ CHR ''}'' # r = join '','' (json_ser_members ps') @ CHR ''}'' # r'"
    show "[] = ps' \<and> r = r'"
    proof (cases ps')
      case Nil
      with eq show ?thesis by simp
    next
      case (Cons p' t')
      obtain k' v' where p': "p' = (k', v')" by (cases p')
      with d Cons have "\<not> not_serialised v'" by (auto dest: json_data_serialised)
      with eq Cons p' show ?thesis
        by (cases "json_ser_members t' = []") (simp_all add: join_Cons QuoteJSONString_Cons)
    qed
  qed
next
  case (12 k v ps)
  show ?case
  proof (intro impI allI)
    fix ps' r r'
    assume d0: "json_data_members ((k, v) # ps)" and d: "json_data_members ps'"
      and eq: "join '','' (json_ser_members ((k, v) # ps)) @ CHR ''}'' # r
               = join '','' (json_ser_members ps') @ CHR ''}'' # r'"
    from d0 have vd: "\<not> not_serialised v" "json_data v" "json_data_members ps"
      by (auto dest: json_data_serialised)
    note emp = json_ser_members_Nil_iff
    let ?R = "(if ps = [] then [] else CHR '','' # join '','' (json_ser_members ps)) @ CHR ''}'' # r"
    from eq vd have eqL: "QuoteJSONString k @ (CHR '':'' # json_ser v @ ?R)
        = join '','' (json_ser_members ps') @ CHR ''}'' # r'"
      by (cases "ps = []") (simp_all add: join_Cons emp)
    show "(k, v) # ps = ps' \<and> r = r'"
    proof (cases ps')
      case Nil
      with eqL show ?thesis by (simp add: QuoteJSONString_Cons)
    next
      case (Cons p' t')
      obtain k' v' where p': "p' = (k', v')" by (cases p')
      from d Cons p' have vd': "\<not> not_serialised v'" "json_data v'" "json_data_members t'"
        by (auto dest: json_data_serialised)
      let ?R' = "(if t' = [] then [] else CHR '','' # join '','' (json_ser_members t')) @ CHR ''}'' # r'"
      from eqL Cons p' vd'
      have e: "QuoteJSONString k @ (CHR '':'' # json_ser v @ ?R) = QuoteJSONString k' @ (CHR '':'' # json_ser v' @ ?R')"
        by (cases "t' = []") (simp_all add: join_Cons emp)
      from QuoteJSONString_append_inj [OF e]
      have k: "k = k'" and e2: "json_ser v @ ?R = json_ser v' @ ?R'" by simp_all
      have nd: "no_digit_head ?R" "no_digit_head ?R'" by (simp_all add: no_digit_head_simps)
      from 12(2) [OF vd(1)] vd(2) vd'(2) nd e2 have vR: "v = v' \<and> ?R = ?R'" by blast
      have "ps = t' \<and> r = r'"
      proof (cases "ps = []")
        case True
        with vR show ?thesis by (cases "t' = []") simp_all
      next
        case False
        show ?thesis
        proof (cases "t' = []")
          case True
          with vR False show ?thesis by simp
        next
          case f: False
          with vR False
          have "join '','' (json_ser_members ps) @ CHR ''}'' # r = join '','' (json_ser_members t') @ CHR ''}'' # r'"
            by simp
          with 12(3) [OF vd(1)] vd(3) vd'(3) show ?thesis by blast
        qed
      qed
      with k vR Cons p' show ?thesis by simp
    qed
  qed
qed

lemma JSON_stringify_inj:
  assumes "json_data_members o1" and "json_data_members o2"
    and "JSON_stringify o1 = JSON_stringify o2"
  shows "o1 = o2"
proof -
  have "json_data (JObj o1)" "json_data (JObj o2)" using assms(1,2) by simp_all
  moreover have "json_ser (JObj o1) @ [] = json_ser (JObj o2) @ []"
    using assms(3) by (simp add: JSON_stringify_def)
  ultimately have "JObj o1 = JObj o2 \<and> ([]::string) = []"
    using json_ser_inj_aux(1) [of "JObj o1"] no_digit_head_simps(1) by blast
  then show ?thesis by simp
qed

text \<open>C1, as the code has it. For options that are non-empty objects of JSON data whose
  numbers are safe integers (\<^const>\<open>json_data_members\<close>: strings, booleans, \<open>null\<close>,
  integers of magnitude at most \<open>2 ^ 53 - 1\<close>, arrays and objects of these), two option
  records give the same key exactly when they are the same record, with the same names and
  values in the same enumeration order, or when their serialisations are two different
  texts with the same md5 fingerprint. So such records that differ in a name, in a value or
  in the order of their properties get different keys, collisions apart. Nothing is stated
  of an option record that holds a fraction, a number beyond the safe integers,
  \<open>undefined\<close> or a function.\<close>

theorem feedbackKey_same_iff:
  assumes "json_data_members o1" and "json_data_members o2" and "o1 \<noteq> []" and "o2 \<noteq> []"
  shows "(feedbackKey md5 actorId feedbackId (Some o1) = feedbackKey md5 actorId feedbackId (Some o2))
     \<longleftrightarrow> (o1 = o2 \<or> fingerprint_collision md5 (JSON_stringify o1) (JSON_stringify o2))"
proof -
  have "(feedbackKey md5 actorId feedbackId (Some o1) = feedbackKey md5 actorId feedbackId (Some o2))
      \<longleftrightarrow> md5 (JSON_stringify o1) = md5 (JSON_stringify o2)"
    using assms(3,4) by (simp add: feedbackKey_def makeCacheKeyUsingOptions_def)
  also have "\<dots> \<longleftrightarrow> (o1 = o2 \<or> fingerprint_collision md5 (JSON_stringify o1) (JSON_stringify o2))"
    using JSON_stringify_inj [OF assms(1,2)] by (auto simp: fingerprint_collision_def)
  finally show ?thesis .
qed

subsection \<open>Digests\<close>

text \<open>The digest of \<open>abc\<close> given in the test suite of RFC 1321.\<close>

lemma md5_blocks_abc:
  "md5_blocks (md5_pad (map of_char [CHR ''a'', CHR ''b'', CHR ''c'']))
     = [[2153996897, 0, 0, 0, 0, 0, 0, 0, 0, 0, 0, 0, 0, 0, 24, 0]]"
  by (simp add: md5_blocks.simps md5_pad_def le_bytes_def pad_zeros.simps)

lemma md5_block_abc:
  "md5_block (0x67452301, 0xefcdab89, 0x98badcfe, 0x10325476)
     [2153996897, 0, 0, 0, 0, 0, 0, 0, 0, 0, 0, 0, 0, 0, 24, 0]
     = (2555380112, 2958021180, 2101319382, 1920983336)"
  by (simp add: md5_block.simps md5_rounds.simps md5_f_def md5_g_def md5_K_def md5_s_def add32_def not32_def
      rotl32_def)

lemma md5_hex_abc:
  "md5_hex [CHR ''a'', CHR ''b'', CHR ''c'']
     = ''900150983cd24fb0d6963f7d28e17f72''"
  unfolding md5_hex_def md5_blocks_abc
  by (simp add: md5_block_abc le_bytes_def hex_byte_def hex_char_def char_of_eq_iff)

text \<open>The digests of the texts \<open>{"a":1,"b":2}\<close> and \<open>{"b":2,"a":1}\<close>.\<close>

lemma md5_blocks_ab:
  "md5_blocks (md5_pad (map of_char [CHR ''{'', CHR 0x22, CHR ''a'', CHR 0x22, CHR '':'', CHR ''1'', CHR '','', CHR 0x22, CHR ''b'', CHR 0x22, CHR '':'', CHR ''2'', CHR ''}'']))
     = [[576791163, 573321530, 842670690, 32893, 0, 0, 0, 0, 0, 0, 0, 0, 0, 0, 104, 0]]"
  by (simp add: md5_blocks.simps md5_pad_def le_bytes_def pad_zeros.simps)

lemma md5_block_ab:
  "md5_block (0x67452301, 0xefcdab89, 0x98badcfe, 0x10325476)
     [576791163, 573321530, 842670690, 32893, 0, 0, 0, 0, 0, 0, 0, 0, 0, 0, 104, 0]
     = (2598669664, 3051028550, 659125169, 1244559705)"
  by (simp add: md5_block.simps md5_rounds.simps md5_f_def md5_g_def md5_K_def md5_s_def add32_def not32_def
      rotl32_def)

lemma md5_hex_ab:
  "md5_hex [CHR ''{'', CHR 0x22, CHR ''a'', CHR 0x22, CHR '':'', CHR ''1'', CHR '','', CHR 0x22, CHR ''b'', CHR 0x22, CHR '':'', CHR ''2'', CHR ''}'']
     = ''608de49a4600dbb5b173492759792e4a''"
  unfolding md5_hex_def md5_blocks_ab
  by (simp add: md5_block_ab le_bytes_def hex_byte_def hex_char_def char_of_eq_iff)

lemma md5_blocks_ba:
  "md5_blocks (md5_pad (map of_char [CHR ''{'', CHR 0x22, CHR ''b'', CHR 0x22, CHR '':'', CHR ''2'', CHR '','', CHR 0x22, CHR ''a'', CHR 0x22, CHR '':'', CHR ''1'', CHR ''}'']))
     = [[576856699, 573321786, 825893473, 32893, 0, 0, 0, 0, 0, 0, 0, 0, 0, 0, 104, 0]]"
  by (simp add: md5_blocks.simps md5_pad_def le_bytes_def pad_zeros.simps)

lemma md5_block_ba:
  "md5_block (0x67452301, 0xefcdab89, 0x98badcfe, 0x10325476)
     [576856699, 573321786, 825893473, 32893, 0, 0, 0, 0, 0, 0, 0, 0, 0, 0, 104, 0]
     = (1586894233, 976489908, 1315889807, 85597492)"
  by (simp add: md5_block.simps md5_rounds.simps md5_f_def md5_g_def md5_K_def md5_s_def add32_def not32_def
      rotl32_def)

lemma md5_hex_ba:
  "md5_hex [CHR ''{'', CHR 0x22, CHR ''b'', CHR 0x22, CHR '':'', CHR ''2'', CHR '','', CHR 0x22, CHR ''a'', CHR 0x22, CHR '':'', CHR ''1'', CHR ''}'']
     = ''9915965eb40d343a8fe26e4e341d1a05''"
  unfolding md5_hex_def md5_blocks_ba
  by (simp add: md5_block_ba le_bytes_def hex_byte_def hex_char_def char_of_eq_iff)

subsection \<open>The key of an option record\<close>

lemma sample_stringify:
  "JSON_stringify [(''a'', JNum 1), (''b'', JNum 2)]
     = [CHR ''{'', CHR 0x22, CHR ''a'', CHR 0x22, CHR '':'', CHR ''1'', CHR '','',
        CHR 0x22, CHR ''b'', CHR 0x22, CHR '':'', CHR ''2'', CHR ''}'']"
  "JSON_stringify [(''b'', JNum 2), (''a'', JNum 1)]
     = [CHR ''{'', CHR 0x22, CHR ''b'', CHR 0x22, CHR '':'', CHR ''2'', CHR '','',
        CHR 0x22, CHR ''a'', CHR 0x22, CHR '':'', CHR ''1'', CHR ''}'']"
  by (simp_all add: JSON_stringify_def QuoteJSONString_def json_escape_def show_int_def
      show_nat.simps digit_char_def char_of_eq_iff)

lemma sample_keys:
  "feedbackKey md5_hex a f (Some [(''a'', JNum 1), (''b'', JNum 2)])
     = a @ ''~'' @ f @ ''+608de49a4600dbb5b173492759792e4a''"
  "feedbackKey md5_hex a f (Some [(''b'', JNum 2), (''a'', JNum 1)])
     = a @ ''~'' @ f @ ''+9915965eb40d343a8fe26e4e341d1a05''"
  by (simp_all add: feedbackKey_def makeCacheKeyUsingOptions_def sample_stringify
      md5_hex_ab md5_hex_ba)

theorem feedbackKey_same_iff_witness:
  "json_data_members [(''a'', JNum 1), (''b'', JNum 2)]
   \<and> json_data_members [(''b'', JNum 2), (''a'', JNum 1)]
   \<and> [(''a'', JNum 1), (''b'', JNum 2)] \<noteq> ([] :: jsobj)
   \<and> [(''b'', JNum 2), (''a'', JNum 1)] \<noteq> ([] :: jsobj)
   \<and> \<not> fingerprint_collision md5_hex (JSON_stringify [(''a'', JNum 1), (''b'', JNum 2)])
          (JSON_stringify [(''b'', JNum 2), (''a'', JNum 1)])
   \<and> feedbackKey md5_hex ''A'' ''x.feedback.y'' (Some [(''a'', JNum 1), (''b'', JNum 2)])
       \<noteq> feedbackKey md5_hex ''A'' ''x.feedback.y'' (Some [(''b'', JNum 2), (''a'', JNum 1)])"
proof -
  have d: "json_data_members [(''a'', JNum 1), (''b'', JNum 2)]"
    "json_data_members [(''b'', JNum 2), (''a'', JNum 1)]" by (simp_all add: safe_integer_def)
  have n: "[(''a'', JNum 1), (''b'', JNum 2)] \<noteq> ([] :: jsobj)"
    "[(''b'', JNum 2), (''a'', JNum 1)] \<noteq> ([] :: jsobj)" by simp_all
  have c: "\<not> fingerprint_collision md5_hex (JSON_stringify [(''a'', JNum 1), (''b'', JNum 2)])
          (JSON_stringify [(''b'', JNum 2), (''a'', JNum 1)])"
    by (simp add: fingerprint_collision_def sample_stringify md5_hex_ab md5_hex_ba)
  from feedbackKey_same_iff [OF d n, of md5_hex "''A''" "''x.feedback.y''"] c d n
  show ?thesis by simp
qed

text \<open>C1 as stated fails. The option records \<open>{a: 1, b: 2}\<close> and \<open>{b: 2, a: 1}\<close> hold the
  same pairs; \<open>JSON.stringify\<close> writes them in their own order, the two texts have different
  md5 digests, and the keys differ.\<close>

theorem key_depends_on_option_order:
  "set [(''a'', JNum 1), (''b'', JNum 2)] = set [(''b'', JNum 2), (''a'', JNum 1)]
   \<and> makeCacheKeyUsingOptions md5_hex ''A~x.feedback.y'' (Some [(''a'', JNum 1), (''b'', JNum 2)])
       = ''A~x.feedback.y+608de49a4600dbb5b173492759792e4a''
   \<and> makeCacheKeyUsingOptions md5_hex ''A~x.feedback.y'' (Some [(''b'', JNum 2), (''a'', JNum 1)])
       = ''A~x.feedback.y+9915965eb40d343a8fe26e4e341d1a05''
   \<and> makeCacheKeyUsingOptions md5_hex ''A~x.feedback.y'' (Some [(''a'', JNum 1), (''b'', JNum 2)])
       \<noteq> makeCacheKeyUsingOptions md5_hex ''A~x.feedback.y'' (Some [(''b'', JNum 2), (''a'', JNum 1)])"
  by (simp add: makeCacheKeyUsingOptions_def sample_stringify md5_hex_ab md5_hex_ba) auto

section \<open>Properties of the cache\<close>

lemma remove_keys_filter:
  "remove_keys p keys c = filter (\<lambda>e. \<not> (prefix p (fst e) \<and> fst e \<in> set keys)) c"
proof (induction keys arbitrary: c)
  case Nil
  show ?case by simp
next
  case (Cons key keys)
  show ?case
    by (auto simp: Cons.IH prop_delete_filter intro!: filter_cong)
qed

lemma remove_keys_own:
  "remove_keys p (map fst c) c = filter (\<lambda>e. \<not> prefix p (fst e)) c"
  unfolding remove_keys_filter by (rule filter_cong) auto

lemma map_of_filter_fst:
  "map_of (filter (\<lambda>e. P (fst e)) c) k = (if P k then map_of c k else None)"
  by (induction c) auto

text \<open>C6. \<open>cacheRemoveKeysWithPrefix(p)\<close> removes every entry whose key starts with \<open>p\<close> and
  keeps every other entry as it was, in the same order: the cache afterwards is the cache
  before without the entries whose key starts with \<open>p\<close>, so a lookup of a key with the
  prefix finds nothing and a lookup of any other key finds what it found before.\<close>

theorem cacheRemoveKeysWithPrefix_removes_all_and_only:
  "localFeedbackCache (cacheRemoveKeysWithPrefix s p) =
     filter (\<lambda>e. \<not> prefix p (fst e)) (localFeedbackCache s)
   \<and> map_of (localFeedbackCache (cacheRemoveKeysWithPrefix s p)) k =
     (if prefix p k then None else map_of (localFeedbackCache s) k)"
  by (simp add: cacheRemoveKeysWithPrefix_def remove_keys_own
        map_of_filter_fst [where P = "\<lambda>k. \<not> prefix p k"])

lemma cacheGet_key:
  "cacheGet md5 s a f opts = map_of (localFeedbackCache s) (feedbackKey md5 a f opts)"
  by (simp add: cacheGet_def feedbackKey_def)

lemma cacheStore_cache:
  "localFeedbackCache (cacheStore md5 s a f opts st) =
     prop_set (localFeedbackCache s) (feedbackKey md5 a f opts) st"
  by (simp add: cacheStore_def feedbackKey_def)

lemma cacheGet_cacheStore:
  "cacheGet md5 (cacheStore md5 s a' f' opts' st) a f opts =
     (if feedbackKey md5 a' f' opts' = feedbackKey md5 a f opts then Some st
      else cacheGet md5 s a f opts)"
  by (simp add: cacheGet_key cacheStore_cache map_of_prop_set)

lemma cacheGet_cacheStores_other:
  "feedbackKey md5 a f opts \<notin> set (map (\<lambda>(a', f', opts', st). feedbackKey md5 a' f' opts') stores)
   \<Longrightarrow> cacheGet md5 (cacheStores md5 s stores) a f opts = cacheGet md5 s a f opts"
  by (induction stores arbitrary: s) (auto simp: cacheGet_cacheStore)

text \<open>C7. A store followed by a get with the same actor id, feedback id and options returns
  the stored state; in the freshly constructed instance every get returns \<open>undefined\<close>, and
  it still does after any run of stores none of which was for the key asked for.\<close>

theorem cacheStore_then_cacheGet:
  "cacheGet md5 (cacheStore md5 s a f opts st) a f opts = Some st
   \<and> cacheGet md5 constructor a f opts = None
   \<and> (feedbackKey md5 a f opts \<notin> set (map (\<lambda>(a', f', opts', st'). feedbackKey md5 a' f' opts') stores)
        \<longrightarrow> cacheGet md5 (cacheStores md5 constructor stores) a f opts = None)"
proof (intro conjI impI)
  show "cacheGet md5 (cacheStore md5 s a f opts st) a f opts = Some st"
    by (simp add: cacheGet_cacheStore)
  show c: "cacheGet md5 constructor a f opts = None"
    by (simp add: cacheGet_def constructor_def)
  assume "feedbackKey md5 a f opts \<notin> set (map (\<lambda>(a', f', opts', st'). feedbackKey md5 a' f' opts') stores)"
  from cacheGet_cacheStores_other [OF this] c
  show "cacheGet md5 (cacheStores md5 constructor stores) a f opts = None"
    by simp
qed

theorem cacheStore_then_cacheGet_witness:
  "cacheGet md5_hex
     (cacheStore md5_hex constructor ''A'' ''x.feedback.y'' (Some [(''a'', JNum 1), (''b'', JNum 2)])
        [(''value'', JBool True)])
     ''A'' ''x.feedback.y'' (Some [(''a'', JNum 1), (''b'', JNum 2)]) = Some [(''value'', JBool True)]
   \<and> feedbackKey md5_hex ''A'' ''x.feedback.y'' (Some [(''a'', JNum 1), (''b'', JNum 2)])
       \<notin> set (map (\<lambda>(a', f', opts', st'). feedbackKey md5_hex a' f' opts')
             [(''A'', ''x.feedback.y'', Some [(''b'', JNum 2), (''a'', JNum 1)], [(''value'', JBool False)])])
   \<and> cacheGet md5_hex (cacheStores md5_hex constructor
       [(''A'', ''x.feedback.y'', Some [(''b'', JNum 2), (''a'', JNum 1)], [(''value'', JBool False)])])
       ''A'' ''x.feedback.y'' (Some [(''a'', JNum 1), (''b'', JNum 2)]) = None"
proof -
  have k: "feedbackKey md5_hex ''A'' ''x.feedback.y'' (Some [(''a'', JNum 1), (''b'', JNum 2)])
       \<notin> set (map (\<lambda>(a', f', opts', st'). feedbackKey md5_hex a' f' opts')
             [(''A'', ''x.feedback.y'', Some [(''b'', JNum 2), (''a'', JNum 1)], [(''value'', JBool False)])])"
    by (simp add: sample_keys)
  from k cacheStore_then_cacheGet [of md5_hex constructor "''A''" "''x.feedback.y''"
      "Some [(''a'', JNum 1), (''b'', JNum 2)]" "[(''value'', JBool True)]"
      "[(''A'', ''x.feedback.y'', Some [(''b'', JNum 2), (''a'', JNum 1)], [(''value'', JBool False)])]"]
  show ?thesis by simp
qed

section \<open>Properties of the resolver\<close>

lemma prop_get_absent: "\<not> hasOwnProperty obj k \<Longrightarrow> prop_get obj k = JUndefined"
  by (simp add: hasOwnProperty_def prop_get_def)

text \<open>C8. A state with no \<open>overlayQueryKey\<close>, no \<open>pngQueryKey\<close>, no \<open>overlayImageName\<close> and
  no \<open>imageName\<close> field is returned by the resolver as it is, whatever the remote engine,
  the image store and the image library would answer.\<close>

theorem handleFeedbackState_resolved_unchanged:
  assumes "\<not> hasOwnProperty state ''overlayQueryKey''"
    and "\<not> hasOwnProperty state ''pngQueryKey''"
    and "\<not> hasOwnProperty state ''overlayImageName''"
    and "\<not> hasOwnProperty state ''imageName''"
  shows "handleFeedbackState e s state = Inr state"
  using assms by (simp add: handleFeedbackState_def prop_get_absent)

theorem handleFeedbackState_resolved_unchanged_witness:
  "\<not> hasOwnProperty [(''value'', JBool True), (''png64'', JStr ''iVBORw0KGgo='')] ''overlayQueryKey''
   \<and> \<not> hasOwnProperty [(''value'', JBool True), (''png64'', JStr ''iVBORw0KGgo='')] ''pngQueryKey''
   \<and> \<not> hasOwnProperty [(''value'', JBool True), (''png64'', JStr ''iVBORw0KGgo='')] ''overlayImageName''
   \<and> \<not> hasOwnProperty [(''value'', JBool True), (''png64'', JStr ''iVBORw0KGgo='')] ''imageName''
   \<and> handleFeedbackState (sample_env (\<lambda>f. Rejected) None) constructor
       [(''value'', JBool True), (''png64'', JStr ''iVBORw0KGgo='')]
       = Inr [(''value'', JBool True), (''png64'', JStr ''iVBORw0KGgo='')]"
proof -
  have h: "\<not> hasOwnProperty [(''value'', JBool True), (''png64'', JStr ''iVBORw0KGgo='')] k"
    if "k \<noteq> ''value''" "k \<noteq> ''png64''" for k
    using that by (simp add: hasOwnProperty_def)
  have 1: "\<not> hasOwnProperty [(''value'', JBool True), (''png64'', JStr ''iVBORw0KGgo='')] ''overlayQueryKey''"
    by (rule h) simp_all
  have 2: "\<not> hasOwnProperty [(''value'', JBool True), (''png64'', JStr ''iVBORw0KGgo='')] ''pngQueryKey''"
    by (rule h) simp_all
  have 3: "\<not> hasOwnProperty [(''value'', JBool True), (''png64'', JStr ''iVBORw0KGgo='')] ''overlayImageName''"
    by (rule h) simp_all
  have 4: "\<not> hasOwnProperty [(''value'', JBool True), (''png64'', JStr ''iVBORw0KGgo='')] ''imageName''"
    by (rule h) simp_all
  from handleFeedbackState_resolved_unchanged [OF 1 2 3 4] 1 2 3 4 show ?thesis by blast
qed

lemma hasOwnProperty_prop_delete:
  "hasOwnProperty (prop_delete obj k) k' = (k' \<noteq> k \<and> hasOwnProperty obj k')"
  by (simp add: hasOwnProperty_def map_of_prop_delete)

lemma hasOwnProperty_prop_set:
  "hasOwnProperty (prop_set obj k v) k' = (k' = k \<or> hasOwnProperty obj k')"
  by (simp add: hasOwnProperty_def map_of_prop_set)

lemma overlayQueryKey_block_keeps_pngQueryKey:
  "hasOwnProperty (overlayQueryKey_block playStates state) ''pngQueryKey''
     = hasOwnProperty state ''pngQueryKey''"
  by (simp add: overlayQueryKey_block_def Let_def hasOwnProperty_prop_delete hasOwnProperty_prop_set)

lemma pngQueryKey_block_discards:
  "hasOwnProperty state ''pngQueryKey'' \<Longrightarrow>
     \<not> hasOwnProperty (pngQueryKey_block playStates state) ''png_running''
     \<and> \<not> hasOwnProperty (pngQueryKey_block playStates state) ''png_paused''
     \<and> \<not> hasOwnProperty (pngQueryKey_block playStates state) ''pngQueryKey''"
  by (simp add: pngQueryKey_block_def Let_def hasOwnProperty_prop_delete hasOwnProperty_prop_set)

text \<open>Whatever the play state, the variant fields and the query key are gone once the
  \<open>pngQueryKey\<close> block has run.\<close>

lemma png_variants_discarded:
  assumes "hasOwnProperty state ''pngQueryKey''"
    and "handleFeedbackOverlayPlayStates e state = Inr resolved"
  shows "\<not> hasOwnProperty resolved ''png_running'' \<and> \<not> hasOwnProperty resolved ''png_paused''
     \<and> \<not> hasOwnProperty resolved ''pngQueryKey''"
proof -
  from assms(2) obtain playStates where
    r: "resolved = pngQueryKey_block playStates (overlayQueryKey_block playStates state)"
    by (cases "env_layerstate e") (auto simp: handleFeedbackOverlayPlayStates_def)
  have "hasOwnProperty (overlayQueryKey_block playStates state) ''pngQueryKey''"
    using assms(1) by (simp add: overlayQueryKey_block_keeps_pngQueryKey)
  from pngQueryKey_block_discards [OF this] show ?thesis unfolding r .
qed

text \<open>C3. The state \<open>{pngQueryKey: "L1", png_running: "AAAA"}\<close>, resolved while the layer
  \<open>L1\<close> is running: the result is the empty object. The query key and the variant field
  are gone, but the value \<open>"AAAA"\<close> has not been selected into the \<open>png\<close> field (the
  running branch assigns \<open>png_running\<close> to itself, where the paused branch assigns
  \<open>png_paused\<close> to \<open>png\<close>).\<close>

theorem png_running_not_selected:
  "handleFeedbackOverlayPlayStates
     (sample_env (\<lambda>f. Rejected) (Some [(''L1'', JObj [(''playState'', JStr ''running'')])]))
     [(''pngQueryKey'', JStr ''L1''), (''png_running'', JStr ''AAAA'')] = Inr []
   \<and> handleFeedbackState
     (sample_env (\<lambda>f. Rejected) (Some [(''L1'', JObj [(''playState'', JStr ''running'')])])) constructor
     [(''pngQueryKey'', JStr ''L1''), (''png_running'', JStr ''AAAA'')] = Inr []"
  by (simp add: handleFeedbackState_def handleFeedbackOverlayPlayStates_def
      overlayQueryKey_block_def pngQueryKey_block_def playState_of_def
      hasOwnProperty_def prop_get_def obj_get_def sample_env_def)

section \<open>Properties of the rebuild pass\<close>

lemma rebuild_loop_eq:
  "rebuild_loop s acc =
     (s\<lparr>cacheMisses := [],
        pendingFeedbackChanges :=
          filter (\<lambda>p. fst p \<notin> miss_id ` set (cacheMisses s)) (pendingFeedbackChanges s)\<rparr>,
      acc @ map refill_of (filter valid_miss (rev (cacheMisses s))))"
proof (induction "cacheMisses s" arbitrary: s acc rule: rev_induct)
  case Nil
  then show ?case by (simp add: rebuild_loop.simps)
next
  case (snoc m ms)
  let ?s2 = "s\<lparr>cacheMisses := ms,
      pendingFeedbackChanges := prop_delete (pendingFeedbackChanges s) (miss_id m)\<rparr>"
  have ms: "cacheMisses s = ms @ [m]" using snoc.hyps(2) by simp
  have ih: "rebuild_loop ?s2 acc' =
     (?s2\<lparr>cacheMisses := [],
        pendingFeedbackChanges :=
          filter (\<lambda>p. fst p \<notin> miss_id ` set (cacheMisses ?s2)) (pendingFeedbackChanges ?s2)\<rparr>,
      acc' @ map refill_of (filter valid_miss (rev (cacheMisses ?s2))))" for acc'
    by (rule snoc.hyps(1)) simp
  have flt: "filter (\<lambda>p. fst p \<notin> miss_id ` set ms) (prop_delete (pendingFeedbackChanges s) (miss_id m))
      = filter (\<lambda>p. fst p \<notin> miss_id ` set (ms @ [m])) (pendingFeedbackChanges s)"
    by (auto simp: prop_delete_filter intro!: filter_cong)
  show ?case
    apply (subst rebuild_loop.simps)
    apply (simp add: ms Let_def ih flt valid_miss_def refill_of_def)
    done
qed

lemma rebuildFeedbackCache_eq:
  "rebuildFeedbackCache s =
     (s\<lparr>cacheMisses := [],
        pendingFeedbackChanges :=
          filter (\<lambda>p. fst p \<notin> miss_id ` set (cacheMisses s)) (pendingFeedbackChanges s),
        cacheBuilder := None\<rparr>,
      map refill_of (filter valid_miss (rev (cacheMisses s))))"
  by (simp add: rebuildFeedbackCache_def rebuild_loop_eq stopCacheChecker_def)

lemma handleFeedbackOverlayImage_frame:
  "images s' = images s \<Longrightarrow> layerImageData s' = layerImageData s
   \<Longrightarrow> handleFeedbackOverlayImage e s' state = handleFeedbackOverlayImage e s state"
  by (simp add: handleFeedbackOverlayImage_def Let_def)

lemma handleFeedbackState_frame:
  assumes "images s' = images s" and "layerImageData s' = layerImageData s"
  shows "handleFeedbackState e s' state = handleFeedbackState e s state"
proof -
  have h: "handleFeedbackOverlayImage e s' = handleFeedbackOverlayImage e s"
    by (rule ext) (rule handleFeedbackOverlayImage_frame [OF assms])
  show ?thesis unfolding handleFeedbackState_def h by (rule refl)
qed

lemma queryFeedbackDetails_frame:
  assumes "images s' = images s" and "layerImageData s' = layerImageData s"
  shows "queryFeedbackDetails e s' a f opts = queryFeedbackDetails e s a f opts"
proof -
  have h: "handleFeedbackState e s' = handleFeedbackState e s"
    by (rule ext) (rule handleFeedbackState_frame [OF assms])
  show ?thesis unfolding queryFeedbackDetails_def queryFeedbackState_def h by (rule refl)
qed

lemma refill_settled_eq:
  "refill_settled e s r =
     (case refill_reply e s r of
        Inr reply \<Rightarrow> s\<lparr>localFeedbackCache := prop_set (localFeedbackCache s) (refill_key e r) reply\<rparr>
      | Inl err \<Rightarrow> s)"
  by (simp add: refill_settled_def refill_reply_def refill_key_def cacheStore_def feedbackKey_def
      split: sum.splits)

lemma refill_settled_frame:
  "images (refill_settled e s r) = images s"
  "layerImageData (refill_settled e s r) = layerImageData s"
  "pendingFeedbackChanges (refill_settled e s r) = pendingFeedbackChanges s"
  "cacheMisses (refill_settled e s r) = cacheMisses s"
  "cacheBuilder (refill_settled e s r) = cacheBuilder s"
  by (simp_all add: refill_settled_eq split: sum.splits)

lemma refills_settled_frame:
  "images (refills_settled e s rs) = images s"
  "layerImageData (refills_settled e s rs) = layerImageData s"
  "pendingFeedbackChanges (refills_settled e s rs) = pendingFeedbackChanges s"
  "cacheMisses (refills_settled e s rs) = cacheMisses s"
  "cacheBuilder (refills_settled e s rs) = cacheBuilder s"
  by (induction rs arbitrary: s; simp add: refill_settled_frame)+

lemma refill_reply_frame:
  "images s' = images s \<Longrightarrow> layerImageData s' = layerImageData s
   \<Longrightarrow> refill_reply e s' r = refill_reply e s r"
  by (simp add: refill_reply_def queryFeedbackDetails_frame [of s' s])

lemma stored_replies_frame:
  "images s' = images s \<Longrightarrow> layerImageData s' = layerImageData s
   \<Longrightarrow> stored_replies e s' k rs = stored_replies e s k rs"
  by (simp add: stored_replies_def refill_reply_frame [of s' s])

lemma stored_replies_Cons:
  "stored_replies e s k (r # rs) =
     (case refill_reply e s r of
        Inr reply \<Rightarrow> if refill_key e r = k then reply # stored_replies e s k rs
                     else stored_replies e s k rs
      | Inl err \<Rightarrow> stored_replies e s k rs)"
  by (simp add: stored_replies_def List.map_filter_simps split: sum.splits)

lemma stored_replies_Nil: "stored_replies e s k [] = []"
  by (simp add: stored_replies_def List.map_filter_simps)

lemma refills_settled_lookup:
  "map_of (localFeedbackCache (refills_settled e s rs)) k =
     (if stored_replies e s k rs = [] then map_of (localFeedbackCache s) k
      else Some (last (stored_replies e s k rs)))"
proof (induction rs arbitrary: s)
  case Nil
  show ?case by (simp add: stored_replies_Nil)
next
  case (Cons r rs)
  have fr: "stored_replies e (refill_settled e s r) k rs = stored_replies e s k rs"
    by (rule stored_replies_frame) (simp_all add: refill_settled_frame)
  have step: "map_of (localFeedbackCache (refills_settled e (refill_settled e s r) rs)) k =
     (if stored_replies e s k rs = [] then map_of (localFeedbackCache (refill_settled e s r)) k
      else Some (last (stored_replies e s k rs)))"
    by (simp add: Cons.IH fr)
  show ?case
    unfolding refills_settled.simps step
    by (cases "refill_reply e s r")
       (simp_all add: stored_replies_Cons refill_settled_eq map_of_prop_set)
qed

lemma prop_get_filter_fst:
  "prop_get (filter (\<lambda>p. P (fst p)) obj) k = (if P k then prop_get obj k else JUndefined)"
  by (simp add: prop_get_def map_of_filter_fst [where P = P])

lemma rebuild_pass_eq:
  "rebuild_pass e s =
     allSettled e
       (s\<lparr>cacheMisses := [],
          pendingFeedbackChanges :=
            filter (\<lambda>p. fst p \<notin> miss_id ` set (cacheMisses s)) (pendingFeedbackChanges s),
          cacheBuilder := None\<rparr>)
       (map refill_of (filter valid_miss (rev (cacheMisses s))))"
  by (simp add: rebuild_pass_def rebuildFeedbackCache_eq)

lemma allSettled_frame:
  "pendingFeedbackChanges (fst (allSettled e s rs)) = pendingFeedbackChanges s"
  "cacheMisses (fst (allSettled e s rs)) = cacheMisses s"
  "images (fst (allSettled e s rs)) = images s"
  by (simp_all add: allSettled_def refills_settled_frame)

lemma allSettled_lookup:
  "map_of (localFeedbackCache (fst (allSettled e s rs))) k =
     (if stored_replies e s k rs = [] then map_of (localFeedbackCache s) k
      else Some (last (stored_replies e s k rs)))"
  by (cases rs) (simp_all add: allSettled_def stored_replies_Nil refills_settled_lookup del: refills_settled.simps)

text \<open>C2, as the code has it. A rebuild pass deletes the pending change of every id that
  is on the miss worklist when the pass starts, at the moment the miss is popped and before
  its query is sent; the outcome of the refill (or whether one is sent at all) plays no
  part, and the pending changes of all other ids stay as they were.\<close>

theorem rebuild_pass_clears_marks_at_pop:
  "pendingFeedbackChanges (fst (rebuild_pass e s)) =
     filter (\<lambda>p. fst p \<notin> miss_id ` set (cacheMisses s)) (pendingFeedbackChanges s)
   \<and> prop_get (pendingFeedbackChanges (fst (rebuild_pass e s))) k =
     (if k \<in> miss_id ` set (cacheMisses s) then JUndefined
      else prop_get (pendingFeedbackChanges s) k)"
  by (simp add: rebuild_pass_eq allSettled_frame
      prop_get_filter_fst [where P = "\<lambda>k. k \<notin> miss_id ` set (cacheMisses s)"])

lemma sample_valid: "valid_miss \<lparr>miss_id = ''A~x.feedback.y'', miss_options = None\<rparr>"
  by (simp add: valid_miss_def split_limit_def piece_def sublist_code)

lemma sample_refill: "refill_of \<lparr>miss_id = ''A~x.feedback.y'', miss_options = None\<rparr>
  = \<lparr>refill_actorId = ''A'', refill_feedbackId = ''x.feedback.y'', refill_options = None\<rparr>"
  by (simp add: refill_of_def split_limit_def piece_def)

text \<open>C2 as stated fails. The id \<open>A~x.feedback.y\<close> is marked stale and is on the worklist;
  the remote engine rejects the query. The refill is sent and fails, nothing is stored in the
  cache, and still the mark is gone after the pass.\<close>

theorem failed_refill_clears_mark:
  "truthy (prop_get (pendingFeedbackChanges
      (constructor\<lparr>pendingFeedbackChanges := [(''A~x.feedback.y'', JStr ''stale'')],
                   cacheMisses := [\<lparr>miss_id = ''A~x.feedback.y'', miss_options = None\<rparr>]\<rparr>))
      ''A~x.feedback.y'')
   \<and> queryFeedbackDetails (sample_env (\<lambda>f. Rejected) None)
      (constructor\<lparr>pendingFeedbackChanges := [(''A~x.feedback.y'', JStr ''stale'')],
                   cacheMisses := [\<lparr>miss_id = ''A~x.feedback.y'', miss_options = None\<rparr>]\<rparr>)
      ''A'' ''x.feedback.y'' None = Inl CallRejected
   \<and> snd (rebuildFeedbackCache
      (constructor\<lparr>pendingFeedbackChanges := [(''A~x.feedback.y'', JStr ''stale'')],
                   cacheMisses := [\<lparr>miss_id = ''A~x.feedback.y'', miss_options = None\<rparr>]\<rparr>))
      = [\<lparr>refill_actorId = ''A'', refill_feedbackId = ''x.feedback.y'', refill_options = None\<rparr>]
   \<and> pendingFeedbackChanges (fst (rebuild_pass (sample_env (\<lambda>f. Rejected) None)
      (constructor\<lparr>pendingFeedbackChanges := [(''A~x.feedback.y'', JStr ''stale'')],
                   cacheMisses := [\<lparr>miss_id = ''A~x.feedback.y'', miss_options = None\<rparr>]\<rparr>))) = []
   \<and> localFeedbackCache (fst (rebuild_pass (sample_env (\<lambda>f. Rejected) None)
      (constructor\<lparr>pendingFeedbackChanges := [(''A~x.feedback.y'', JStr ''stale'')],
                   cacheMisses := [\<lparr>miss_id = ''A~x.feedback.y'', miss_options = None\<rparr>]\<rparr>))) = []"
  by (simp add: rebuild_pass_eq rebuildFeedbackCache_eq sample_valid sample_refill allSettled_def
      refill_settled_def queryFeedbackDetails_def queryFeedbackState_def sample_env_def
      constructor_def prop_get_def)

lemma rebuild_pass_count:
  "snd (rebuild_pass e s) = (if \<exists>m \<in> set (cacheMisses s). valid_miss m then 1 else 0)"
  by (auto simp: rebuild_pass_eq allSettled_def filter_empty_conv)

lemma rebuild_pass_lookup:
  "map_of (localFeedbackCache (fst (rebuild_pass e s))) k =
     (if stored_replies e s k (snd (rebuildFeedbackCache s)) = [] then map_of (localFeedbackCache s) k
      else Some (last (stored_replies e s k (snd (rebuildFeedbackCache s)))))"
proof -
  let ?s1 = "s\<lparr>cacheMisses := [],
          pendingFeedbackChanges :=
            filter (\<lambda>p. fst p \<notin> miss_id ` set (cacheMisses s)) (pendingFeedbackChanges s),
          cacheBuilder := None\<rparr>"
  have fr: "stored_replies e ?s1 k rs = stored_replies e s k rs" for rs
    by (rule stored_replies_frame) simp_all
  show ?thesis
    by (simp add: rebuild_pass_eq allSettled_lookup fr rebuildFeedbackCache_eq)
qed

lemma stored_replies_mem:
  "r \<in> set rs \<Longrightarrow> refill_reply e s r = Inr reply \<Longrightarrow> reply \<in> set (stored_replies e s (refill_key e r) rs)"
  by (induction rs) (auto simp: stored_replies_Cons split: sum.splits)

lemma stored_replies_set:
  "set (stored_replies e s k rs) = {reply. \<exists>r \<in> set rs. refill_key e r = k \<and> refill_reply e s r = Inr reply}"
  by (induction rs) (auto simp: stored_replies_Cons stored_replies_Nil split: sum.splits)

lemma stored_replies_last:
  "stored_replies e s k rs \<noteq> [] \<Longrightarrow>
   \<exists>r \<in> set rs. refill_key e r = k \<and> refill_reply e s r = Inr (last (stored_replies e s k rs))"
proof -
  assume "stored_replies e s k rs \<noteq> []"
  then have "last (stored_replies e s k rs) \<in> set (stored_replies e s k rs)" by simp
  then show ?thesis unfolding stored_replies_set by simp
qed

text \<open>C4, as the code has it. In one rebuild pass every miss whose id splits at \<open>~\<close> into a
  non-empty actor id and a feedback id containing \<open>.feedback.\<close> has its refill sent, in pop
  order, whatever becomes of the others. When the refills have settled, a refill that
  succeeded has an entry under its key: the reply of a successful refill for that key, and
  its own reply when no other refill of the pass has the same key. \<open>checkFeedbacks\<close> is
  called once when at least one refill was sent, and not at all otherwise.\<close>

theorem rebuild_pass_settle_and_continue:
  "snd (rebuildFeedbackCache s) = map refill_of (filter valid_miss (rev (cacheMisses s)))
   \<and> (\<forall>r \<in> set (snd (rebuildFeedbackCache s)). \<forall>reply. refill_reply e s r = Inr reply \<longrightarrow>
        (\<exists>r' \<in> set (snd (rebuildFeedbackCache s)). \<exists>reply'.
            refill_key e r' = refill_key e r \<and> refill_reply e s r' = Inr reply'
            \<and> map_of (localFeedbackCache (fst (rebuild_pass e s))) (refill_key e r) = Some reply'))
   \<and> (\<forall>r \<in> set (snd (rebuildFeedbackCache s)). \<forall>reply. refill_reply e s r = Inr reply
        \<and> (\<forall>r' \<in> set (snd (rebuildFeedbackCache s)). refill_key e r' = refill_key e r \<longrightarrow> r' = r) \<longrightarrow>
        map_of (localFeedbackCache (fst (rebuild_pass e s))) (refill_key e r) = Some reply)
   \<and> snd (rebuild_pass e s) = (if \<exists>m \<in> set (cacheMisses s). valid_miss m then 1 else 0)"
proof (intro conjI ballI allI impI)
  show "snd (rebuildFeedbackCache s) = map refill_of (filter valid_miss (rev (cacheMisses s)))"
    by (simp add: rebuildFeedbackCache_eq)
  show "snd (rebuild_pass e s) = (if \<exists>m \<in> set (cacheMisses s). valid_miss m then 1 else 0)"
    by (rule rebuild_pass_count)
next
  fix r reply
  assume r: "r \<in> set (snd (rebuildFeedbackCache s))" and ok: "refill_reply e s r = Inr reply"
  let ?rs = "snd (rebuildFeedbackCache s)"
  from stored_replies_mem [OF r ok]
  have ne: "stored_replies e s (refill_key e r) ?rs \<noteq> []" by auto
  from stored_replies_last [OF ne] obtain r' where
    r': "r' \<in> set ?rs" "refill_key e r' = refill_key e r"
      "refill_reply e s r' = Inr (last (stored_replies e s (refill_key e r) ?rs))"
    by blast
  have "map_of (localFeedbackCache (fst (rebuild_pass e s))) (refill_key e r)
      = Some (last (stored_replies e s (refill_key e r) ?rs))"
    using ne by (simp add: rebuild_pass_lookup)
  with r' show "\<exists>r' \<in> set ?rs. \<exists>reply'.
            refill_key e r' = refill_key e r \<and> refill_reply e s r' = Inr reply'
            \<and> map_of (localFeedbackCache (fst (rebuild_pass e s))) (refill_key e r) = Some reply'"
    by blast
next
  fix r reply
  assume r: "r \<in> set (snd (rebuildFeedbackCache s))"
    and h: "refill_reply e s r = Inr reply
        \<and> (\<forall>r' \<in> set (snd (rebuildFeedbackCache s)). refill_key e r' = refill_key e r \<longrightarrow> r' = r)"
  let ?rs = "snd (rebuildFeedbackCache s)"
  from h have ok: "refill_reply e s r = Inr reply" by simp
  from stored_replies_mem [OF r ok]
  have ne: "stored_replies e s (refill_key e r) ?rs \<noteq> []" by auto
  from stored_replies_last [OF ne] obtain r' where
    r': "r' \<in> set ?rs" "refill_key e r' = refill_key e r"
      "refill_reply e s r' = Inr (last (stored_replies e s (refill_key e r) ?rs))"
    by blast
  with h have "r' = r" by blast
  with r' ok have "last (stored_replies e s (refill_key e r) ?rs) = reply" by simp
  then show "map_of (localFeedbackCache (fst (rebuild_pass e s))) (refill_key e r) = Some reply"
    using ne by (simp add: rebuild_pass_lookup)
qed

lemma two_misses_promises:
  "snd (rebuildFeedbackCache two_misses) =
     [\<lparr>refill_actorId = ''A'', refill_feedbackId = ''x.feedback.ok'', refill_options = None\<rparr>,
      \<lparr>refill_actorId = ''A'', refill_feedbackId = ''x.feedback.bad'', refill_options = None\<rparr>]"
  by (simp add: rebuildFeedbackCache_eq two_misses_def constructor_def valid_miss_def refill_of_def
      split_limit_def piece_def sublist_code)

lemma bad_fails_replies:
  "refill_reply bad_fails two_misses
     \<lparr>refill_actorId = ''A'', refill_feedbackId = ''x.feedback.bad'', refill_options = None\<rparr>
     = Inl CallRejected"
  "refill_reply bad_fails two_misses
     \<lparr>refill_actorId = ''A'', refill_feedbackId = ''x.feedback.ok'', refill_options = None\<rparr>
     = Inr [(''value'', JBool True)]"
  by (simp_all add: refill_reply_def queryFeedbackDetails_def queryFeedbackState_def bad_fails_def
      sample_env_def handleFeedbackState_def prop_get_def)

lemma bad_fails_keys:
  "refill_key bad_fails
     \<lparr>refill_actorId = ''A'', refill_feedbackId = ''x.feedback.bad'', refill_options = None\<rparr>
     = ''A~x.feedback.bad''"
  "refill_key bad_fails
     \<lparr>refill_actorId = ''A'', refill_feedbackId = ''x.feedback.ok'', refill_options = None\<rparr>
     = ''A~x.feedback.ok''"
  by (simp_all add: refill_key_def feedbackKey_def makeCacheKeyUsingOptions_def)

theorem rebuild_pass_settle_and_continue_witness:
  "snd (rebuildFeedbackCache two_misses) =
     [\<lparr>refill_actorId = ''A'', refill_feedbackId = ''x.feedback.ok'', refill_options = None\<rparr>,
      \<lparr>refill_actorId = ''A'', refill_feedbackId = ''x.feedback.bad'', refill_options = None\<rparr>]
   \<and> refill_reply bad_fails two_misses
       \<lparr>refill_actorId = ''A'', refill_feedbackId = ''x.feedback.bad'', refill_options = None\<rparr>
       = Inl CallRejected
   \<and> refill_reply bad_fails two_misses
       \<lparr>refill_actorId = ''A'', refill_feedbackId = ''x.feedback.ok'', refill_options = None\<rparr>
       = Inr [(''value'', JBool True)]
   \<and> map_of (localFeedbackCache (fst (rebuild_pass bad_fails two_misses))) ''A~x.feedback.ok''
       = Some [(''value'', JBool True)]
   \<and> snd (rebuild_pass bad_fails two_misses) = 1"
proof -
  let ?ok = "\<lparr>refill_actorId = ''A'', refill_feedbackId = ''x.feedback.ok'', refill_options = None\<rparr>"
  note t = rebuild_pass_settle_and_continue [of two_misses bad_fails]
  have mem: "?ok \<in> set (snd (rebuildFeedbackCache two_misses))"
    by (simp add: two_misses_promises)
  have uniq: "\<forall>r' \<in> set (snd (rebuildFeedbackCache two_misses)).
      refill_key bad_fails r' = refill_key bad_fails ?ok \<longrightarrow> r' = ?ok"
    by (simp add: two_misses_promises bad_fails_keys)
  from t mem bad_fails_replies(2) uniq
  have stored: "map_of (localFeedbackCache (fst (rebuild_pass bad_fails two_misses)))
      (refill_key bad_fails ?ok) = Some [(''value'', JBool True)]"
    by blast
  have v: "\<exists>m \<in> set (cacheMisses two_misses). valid_miss m"
    by (simp add: two_misses_def valid_miss_def split_limit_def piece_def sublist_code)
  from t v have cnt: "snd (rebuild_pass bad_fails two_misses) = 1" by simp
  from stored cnt show ?thesis
    by (simp add: two_misses_promises bad_fails_replies bad_fails_keys)
qed

text \<open>C4 as stated fails. The worklist holds one miss, for the id
  \<open>newblue.automation.js.feedback.boolean.onair\<close> (an id of the form that
  \<open>makeCustomFeedbackId\<close> builds, without an actor part): the worklist is not empty, no
  refill is sent, and \<open>checkFeedbacks\<close> is not called.\<close>

theorem rebuild_pass_without_refill_no_check:
  "cacheMisses (constructor\<lparr>cacheMisses :=
       [\<lparr>miss_id = ''newblue.automation.js.feedback.boolean.onair'', miss_options = Some []\<rparr>]\<rparr>) \<noteq> []
   \<and> snd (rebuildFeedbackCache (constructor\<lparr>cacheMisses :=
       [\<lparr>miss_id = ''newblue.automation.js.feedback.boolean.onair'', miss_options = Some []\<rparr>]\<rparr>)) = []
   \<and> snd (rebuild_pass (sample_env (\<lambda>f. Parsed []) None) (constructor\<lparr>cacheMisses :=
       [\<lparr>miss_id = ''newblue.automation.js.feedback.boolean.onair'', miss_options = Some []\<rparr>]\<rparr>)) = 0"
  by (simp add: rebuild_pass_eq rebuildFeedbackCache_eq allSettled_def valid_miss_def
      split_limit_def piece_def)

lemma startCacheChecker_eq:
  "startCacheChecker s =
     (if cacheMisses s = [] then (s\<lparr>cacheBuilder := None\<rparr>, [])
      else (s\<lparr>cacheMisses := [],
              pendingFeedbackChanges :=
                filter (\<lambda>p. fst p \<notin> miss_id ` set (cacheMisses s)) (pendingFeedbackChanges s),
              cacheBuilder := Some (SetTimeout 500)\<rparr>,
            map refill_of (filter valid_miss (rev (cacheMisses s)))))"
  by (simp add: startCacheChecker_def Let_def rebuildFeedbackCache_eq stopCacheChecker_def)

lemma scenario_valid:
  "valid_miss \<lparr>miss_id = ''A~newblue.automation.js.feedback.x.y'', miss_options = Some []\<rparr>"
  by (simp add: valid_miss_def split_limit_def piece_def sublist_code)

lemma scenario_refill:
  "refill_of \<lparr>miss_id = ''A~newblue.automation.js.feedback.x.y'', miss_options = Some []\<rparr>
   = \<lparr>refill_actorId = ''A'', refill_feedbackId = ''newblue.automation.js.feedback.x.y'',
      refill_options = Some []\<rparr>"
  by (simp add: refill_of_def split_limit_def piece_def)

text \<open>C5. \<open>handleFeedback\<close> for the boolean feedback \<open>A~newblue.automation.js.feedback.x.y\<close>
  with empty options, when the cache has no entry for it: the call returns \<open>false\<close>; it
  pushes exactly one miss, for that id and those options, onto the worklist; and the checker
  it then starts pops that miss first and sends its refill.\<close>

theorem handleFeedback_uncached_boolean:
  assumes "cacheGetFromFullId md5 s ''A~newblue.automation.js.feedback.x.y'' (Some []) = None"
  shows "snd (snd (handleFeedback md5 s
            \<lparr>ev_feedbackId = ''A~newblue.automation.js.feedback.x.y'', ev_options = Some [],
             ev_type = ''boolean''\<rparr>)) = JBool False
     \<and> cacheMisses (fst (handleFeedback_lookup md5 s
            \<lparr>ev_feedbackId = ''A~newblue.automation.js.feedback.x.y'', ev_options = Some [],
             ev_type = ''boolean''\<rparr>))
       = cacheMisses s @ [\<lparr>miss_id = ''A~newblue.automation.js.feedback.x.y'', miss_options = Some []\<rparr>]
     \<and> fst (snd (handleFeedback md5 s
            \<lparr>ev_feedbackId = ''A~newblue.automation.js.feedback.x.y'', ev_options = Some [],
             ev_type = ''boolean''\<rparr>))
       = \<lparr>refill_actorId = ''A'', refill_feedbackId = ''newblue.automation.js.feedback.x.y'',
          refill_options = Some []\<rparr>
         # map refill_of (filter valid_miss (rev (cacheMisses s)))"
  using assms
  by (simp add: handleFeedback_def handleFeedback_lookup_def feedback_value_def
      startCacheChecker_eq scenario_valid scenario_refill)

theorem handleFeedback_uncached_boolean_witness:
  "cacheGetFromFullId md5_hex constructor ''A~newblue.automation.js.feedback.x.y'' (Some []) = None
   \<and> snd (snd (handleFeedback md5_hex constructor
            \<lparr>ev_feedbackId = ''A~newblue.automation.js.feedback.x.y'', ev_options = Some [],
             ev_type = ''boolean''\<rparr>)) = JBool False
   \<and> cacheMisses (fst (handleFeedback_lookup md5_hex constructor
            \<lparr>ev_feedbackId = ''A~newblue.automation.js.feedback.x.y'', ev_options = Some [],
             ev_type = ''boolean''\<rparr>))
       = [\<lparr>miss_id = ''A~newblue.automation.js.feedback.x.y'', miss_options = Some []\<rparr>]
   \<and> fst (snd (handleFeedback md5_hex constructor
            \<lparr>ev_feedbackId = ''A~newblue.automation.js.feedback.x.y'', ev_options = Some [],
             ev_type = ''boolean''\<rparr>))
       = [\<lparr>refill_actorId = ''A'', refill_feedbackId = ''newblue.automation.js.feedback.x.y'',
          refill_options = Some []\<rparr>]"
proof -
  have h: "cacheGetFromFullId md5_hex constructor ''A~newblue.automation.js.feedback.x.y'' (Some []) = None"
    by (simp add: cacheGetFromFullId_def cacheGet_def constructor_def)
  have m: "cacheMisses constructor = []" by (simp add: constructor_def)
  from handleFeedback_uncached_boolean [OF h] h m show ?thesis by simp
qed

text \<open>The image read of \<open>handleFeedback\<close> goes through the prototype: a cached entry
  whose \<open>imageName\<close> is \<open>constructor\<close> is returned with the function \<open>Object\<close> under
  \<open>png64\<close>, although the image store is empty.\<close>

lemma cached_view_prototype_member:
  "cached_view constructor [(''imageName'', JStr ''constructor'')] = [(''png64'', JFunction ''Object'')]"
  by (simp add: cached_view_def hasOwnProperty_def prop_get_def obj_get_def Object_prototype_def
      constructor_def)









section \<open>Properties of the connection\<close>

text \<open>C9, as the code has it. A \<open>close\<close> event arms a repeating 5-second timer when none is
  armed and leaves an armed one alone; a tick of the timer calls \<open>initQWebChannel\<close>, which
  opens a socket exactly when the configuration gives an address; an \<open>open\<close> event disarms
  the timer. An \<open>error\<close> event leaves the timer as it is: its handler reports \<open>BadConfig\<close>,
  sets \<open>needsNewConfig\<close> and empties \<open>host\<close> and \<open>port\<close>.\<close>

theorem watchdog_armed_on_close_disarmed_on_open:
  "connectionWatchdog (fst (conn_step c SocketClose)) =
     (case connectionWatchdog c of None \<Rightarrow> Some (SetInterval 5000) | Some t \<Rightarrow> Some t)
   \<and> connectionWatchdog (fst (conn_step c SocketOpen)) = None
   \<and> connectionWatchdog (fst (conn_step c SocketError)) = connectionWatchdog c
   \<and> snd (conn_step (fst (conn_step c SocketClose)) WatchdogTick) = serverUrl c
   \<and> status (fst (conn_step c SocketClose)) = Some Disconnected
   \<and> status (fst (conn_step c SocketError)) = Some BadConfig"
  by (simp add: socket_close_def socket_open_def socket_error_def initQWebChannel_def
      serverUrl_def Let_def split: option.splits)

text \<open>C9 as stated fails. The connection has the default host and port and no timer armed.
  After an \<open>error\<close> event there is still no timer; and when the \<open>close\<close> event that follows
  has armed one, its tick opens no socket, since the error handler has emptied \<open>host\<close> and
  \<open>port\<close>.\<close>

theorem error_event_arms_no_timer:
  "connectionWatchdog default_connection = None
   \<and> connectionWatchdog (fst (conn_step default_connection SocketError)) = None
   \<and> connectionWatchdog (fst (conn_step (fst (conn_step default_connection SocketError)) SocketClose))
       = Some (SetInterval 5000)
   \<and> snd (conn_step (fst (conn_step (fst (conn_step default_connection SocketError)) SocketClose))
            WatchdogTick) = None"
  by (simp add: default_connection_def socket_close_def socket_error_def initQWebChannel_def
      serverUrl_def Let_def)

end
